theory Spec2Isabelle
  imports Main
begin

section \<open>Values, request configurations and rejections\<close>

text \<open>
  The JavaScript values the module inspects. The module only ever tests a value for
  truthiness (\<open>if (reason)\<close>, \<open>!config.ignoreAuthModule\<close>, \<open>configUpdater || ...\<close>) or
  compares it strictly with a number (\<open>switch (rejection.status)\<close>). \<open>JNum\<close> carries the
  integer-valued numbers (every other finite number is truthy, like a non-zero integer),
  \<open>JObj\<close> an object reference.
\<close>

datatype jsval =
    JUndefined
  | JNull
  | JBool bool
  | JNum int
  | JNaN
  | JStr string
  | JObj nat

text \<open>ToBoolean of the language: what \<open>if (v)\<close>, \<open>!v\<close> and \<open>v || w\<close> test.\<close>

fun truthy :: "jsval \<Rightarrow> bool" where
  "truthy JUndefined = False"
| "truthy JNull = False"
| "truthy (JBool b) = b"
| "truthy (JNum n) = (n \<noteq> 0)"
| "truthy JNaN = False"
| "truthy (JStr s) = (s \<noteq> [])"
| "truthy (JObj r) = True"

text \<open>
  A request configuration is an object: its own properties, in order. Reading a property
  that is absent gives \<open>undefined\<close>. The empty object \<open>{}\<close> is the empty list.
\<close>

type_synonym config = "(string \<times> jsval) list"

definition get_prop :: "config \<Rightarrow> string \<Rightarrow> jsval" where
  "get_prop c k = (case map_of c k of None \<Rightarrow> JUndefined | Some v \<Rightarrow> v)"

text \<open>
  A rejection as \<open>responseError\<close> reads it: \<open>rejection.status\<close> and \<open>rejection.config\<close>
  (\<open>None\<close> when the property is absent or falsy, so that \<open>rejection.config || {}\<close> is the
  empty object), and the rest of the response.
\<close>

record rejection =
  status :: jsval
  rconfig :: "config option"
  rdata :: jsval

text \<open>A completion handle is a deferred made by \<open>$q.defer()\<close>, known by its identity.\<close>

type_synonym handle = nat

text \<open>An element of \<open>buffer\<close>: \<open>{config: config, deferred: deferred}\<close>.\<close>

record entry =
  config :: config
  deferred :: handle

section \<open>The world: module state and the calls made to collaborators\<close>

datatype payload = PRejection rejection | PData jsval

text \<open>
  The calls the module makes to its collaborators: \<open>$rootScope.$broadcast(name, arg)\<close>,
  \<open>$http(config).then(successCallback, errorCallback)\<close> with the deferred the two
  callbacks close over, \<open>deferred.resolve(response)\<close> and \<open>deferred.reject(reason)\<close>.
  A call \<open>$http(config)\<close> that throws registers nothing and is not listed.
\<close>

datatype effect =
    Broadcast string payload
  | HttpCall config handle
  | Resolve handle jsval
  | Reject handle jsval

text \<open>
  The module-level variables \<open>responseErrorFilter\<close>, \<open>requestFilter\<close> and
  \<open>requestPreprocessor\<close>, the \<open>buffer\<close> of \<open>httpBuffer\<close>, and the collaborators' side:
  \<open>trace\<close> lists every call made so far, oldest first, each with the contents \<open>buffer\<close>
  had at the moment of the call; \<open>next_deferred\<close> is the identity the next \<open>$q.defer()\<close>
  returns; \<open>inflight\<close> lists the deferreds of the replays whose transport promise has not
  settled yet. The three hooks are taken as functions that return a value and do nothing
  else.
\<close>

record world =
  responseErrorFilter :: "rejection \<Rightarrow> jsval"
  requestFilter :: "config \<Rightarrow> jsval"
  requestPreprocessor :: "config \<Rightarrow> config"
  buffer :: "entry list"
  trace :: "(effect \<times> entry list) list"
  next_deferred :: handle
  inflight :: "handle list"

text \<open>What a call can throw: a TypeError of the language, or a value thrown by a callback.\<close>

datatype exn = TypeError | Thrown jsval

text \<open>
  The transport, \<open>$http\<close>, is the framework's, not the module's: the module receives it
  from the injector. What the module's control flow depends on is whether the call
  \<open>$http(config)\<close> throws before it returns its promise, so the transport is a
  parameter of the model: for a configuration, the exception the call throws, or \<open>None\<close>
  when it returns a promise.
\<close>

type_synonym transport = "config \<Rightarrow> exn option"

text \<open>
  The argument of \<open>retryAll\<close> and the second argument of \<open>loginConfirmed\<close>: any value, or
  a function. A function given by the host is arbitrary code: it receives the
  configuration, can reach every service of the module while it runs, and returns a
  configuration or throws.
\<close>

datatype updater =
    NotFunction jsval
  | Function "config \<Rightarrow> world \<Rightarrow> (exn + config) \<times> world"

fun truthy_updater :: "updater \<Rightarrow> bool" where
  "truthy_updater (NotFunction v) = truthy v"
| "truthy_updater (Function f) = True"

text \<open>Calling \<open>updater(c)\<close>: a value that is not a function throws a TypeError.\<close>

fun call :: "updater \<Rightarrow> config \<Rightarrow> world \<Rightarrow> (exn + config) \<times> world" where
  "call (NotFunction v) c w = (Inl TypeError, w)"
| "call (Function f) c w = f c w"

text \<open>The function \<open>function(config) {return config;}\<close> of \<open>loginConfirmed\<close>.\<close>

definition identity :: "config \<Rightarrow> world \<Rightarrow> (exn + config) \<times> world" where
  "identity c w = (Inr c, w)"

text \<open>An updater that only computes: it returns \<open>f c\<close> and touches nothing.\<close>

definition transform :: "(config \<Rightarrow> config) \<Rightarrow> config \<Rightarrow> world \<Rightarrow> (exn + config) \<times> world" where
  "transform f c w = (Inr (f c), w)"

section \<open>Collaborators\<close>

definition emit :: "effect \<Rightarrow> world \<Rightarrow> world" where
  "emit e w = w\<lparr>trace := trace w @ [(e, buffer w)]\<rparr>"

definition effects :: "world \<Rightarrow> effect list" where
  "effects w = map fst (trace w)"

text \<open>\<open>$rootScope.$broadcast(name, arg)\<close>; delivery to listeners is outside the module.\<close>

definition broadcast :: "string \<Rightarrow> payload \<Rightarrow> world \<Rightarrow> world" where
  "broadcast name arg w = emit (Broadcast name arg) w"

text \<open>\<open>$q.defer()\<close>: a deferred nobody holds yet.\<close>

definition q_defer :: "world \<Rightarrow> handle \<times> world" where
  "q_defer w = (next_deferred w, w\<lparr>next_deferred := Suc (next_deferred w)\<rparr>)"

definition deferred_resolve :: "handle \<Rightarrow> jsval \<Rightarrow> world \<Rightarrow> world" where
  "deferred_resolve d response w = emit (Resolve d response) w"

definition deferred_reject :: "handle \<Rightarrow> jsval \<Rightarrow> world \<Rightarrow> world" where
  "deferred_reject d reason w = emit (Reject d reason) w"

text \<open>A deferred is settled once \<open>resolve\<close> or \<open>reject\<close> has been called on it.\<close>

fun settles :: "handle \<Rightarrow> effect \<Rightarrow> bool" where
  "settles d (Resolve d' v) = (d' = d)"
| "settles d (Reject d' v) = (d' = d)"
| "settles d (Broadcast name arg) = False"
| "settles d (HttpCall c d') = False"

definition settled :: "handle \<Rightarrow> world \<Rightarrow> bool" where
  "settled d w = list_ex (settles d) (effects w)"

section \<open>httpBuffer\<close>

text \<open>The two callbacks \<open>retryHttpRequest\<close> hands to the transport promise.\<close>

definition successCallback :: "handle \<Rightarrow> jsval \<Rightarrow> world \<Rightarrow> world" where
  "successCallback d response w = deferred_resolve d response w"

definition errorCallback :: "handle \<Rightarrow> jsval \<Rightarrow> world \<Rightarrow> world" where
  "errorCallback d response w = deferred_reject d response w"

text \<open>
  \<open>retryHttpRequest(config, deferred)\<close>: \<open>$http(config).then(successCallback,
  errorCallback)\<close>, with no \<open>try\<close> around it. When \<open>$http(config)\<close> throws, the
  exception leaves \<open>retryHttpRequest\<close> and nothing has been registered; when it returns
  its promise, the two callbacks are registered on it and the replay is in flight.
  (\<open>$http\<close> is looked up on first use; the lookup is the injector's business.)
\<close>

definition retryHttpRequest ::
  "transport \<Rightarrow> config \<Rightarrow> handle \<Rightarrow> world \<Rightarrow> (exn + unit) \<times> world" where
  "retryHttpRequest http c d w =
     (case http c of
        Some e \<Rightarrow> (Inl e, w)
      | None \<Rightarrow> (Inr (), (emit (HttpCall c d) w)\<lparr>inflight := inflight w @ [d]\<rparr>))"

text \<open>\<open>append(config, deferred)\<close>: \<open>buffer.push({config: config, deferred: deferred})\<close>.\<close>

definition append_entry :: "config \<Rightarrow> handle \<Rightarrow> world \<Rightarrow> world" where
  "append_entry c d w = w\<lparr>buffer := buffer w @ [\<lparr>config = c, deferred = d\<rparr>]\<rparr>"

text \<open>
  The loop of \<open>rejectAll\<close>, \<open>for (var i = 0; i < buffer.length; ++i)
  buffer[i].deferred.reject(reason)\<close>, from index \<open>i\<close> on.
\<close>

function rejectAll_loop :: "jsval \<Rightarrow> nat \<Rightarrow> world \<Rightarrow> world" where
  "rejectAll_loop reason i w =
     (if i < length (buffer w)
      then rejectAll_loop reason (Suc i) (deferred_reject (deferred (buffer w ! i)) reason w)
      else w)"
  by pat_completeness auto
termination
  by (relation "measure (\<lambda>(reason, i, w). length (buffer w) - i)")
     (auto simp: deferred_reject_def emit_def)

declare rejectAll_loop.simps [simp del]

definition rejectAll :: "jsval \<Rightarrow> world \<Rightarrow> world" where
  "rejectAll reason w =
     (let w1 = (if truthy reason then rejectAll_loop reason 0 w else w)
      in w1\<lparr>buffer := []\<rparr>)"

text \<open>
  The loop of \<open>retryAll\<close>, from index \<open>i\<close> on:
  \<open>for (var i = 0; i < buffer.length; ++i)
     retryHttpRequest(updater(buffer[i].config), buffer[i].deferred);
   buffer = [];\<close>
  \<open>buffer.length\<close> is read again at every turn and \<open>buffer[i].deferred\<close> is read after
  \<open>updater\<close> has returned, from whatever \<open>buffer\<close> is then (reading a property of the
  \<open>undefined\<close> that an index past the end gives throws a TypeError). Whatever the
  updater or the transport throws leaves the loop at once, before \<open>buffer = []\<close>. An
  updater that keeps appending keeps the loop running: the result is \<open>None\<close> when the
  loop never ends, \<open>Some (Inl e, w)\<close> when \<open>e\<close> is thrown to the caller,
  \<open>Some (Inr (), w)\<close> when it returns.
\<close>

partial_function (option) retryAll_loop ::
  "transport \<Rightarrow> updater \<Rightarrow> nat \<Rightarrow> world \<Rightarrow> ((exn + unit) \<times> world) option" where
  "retryAll_loop http updater i w =
     (if i < length (buffer w)
      then (case call updater (config (buffer w ! i)) w of
              (Inl e, w1) \<Rightarrow> Some (Inl e, w1)
            | (Inr c, w1) \<Rightarrow>
                if i < length (buffer w1)
                then (case retryHttpRequest http c (deferred (buffer w1 ! i)) w1 of
                        (Inl e, w2) \<Rightarrow> Some (Inl e, w2)
                      | (Inr u, w2) \<Rightarrow> retryAll_loop http updater (Suc i) w2)
                else Some (Inl TypeError, w1))
      else Some (Inr (), w\<lparr>buffer := []\<rparr>))"

definition retryAll :: "transport \<Rightarrow> updater \<Rightarrow> world \<Rightarrow> ((exn + unit) \<times> world) option" where
  "retryAll http updater w = retryAll_loop http updater 0 w"

section \<open>authService\<close>

definition setResponseErrorFilter :: "(rejection \<Rightarrow> jsval) \<Rightarrow> world \<Rightarrow> world" where
  "setResponseErrorFilter func w = w\<lparr>responseErrorFilter := func\<rparr>"

definition setRequestFilter :: "(config \<Rightarrow> jsval) \<Rightarrow> world \<Rightarrow> world" where
  "setRequestFilter func w = w\<lparr>requestFilter := func\<rparr>"

definition setRequestPreprocessor :: "(config \<Rightarrow> config) \<Rightarrow> world \<Rightarrow> world" where
  "setRequestPreprocessor func w = w\<lparr>requestPreprocessor := func\<rparr>"

definition loginConfirmed ::
  "transport \<Rightarrow> jsval \<Rightarrow> updater \<Rightarrow> world \<Rightarrow> ((exn + unit) \<times> world) option" where
  "loginConfirmed http data configUpdater w =
     (let updater = (if truthy_updater configUpdater then configUpdater else Function identity);
          w1 = broadcast ''event:auth-loginConfirmed'' (PData data) w
      in retryAll http updater w1)"

definition loginCancelled :: "jsval \<Rightarrow> jsval \<Rightarrow> world \<Rightarrow> world" where
  "loginCancelled data reason w =
     (let w1 = rejectAll reason w
      in broadcast ''event:auth-loginCancelled'' (PData data) w1)"

section \<open>The interceptor\<close>

text \<open>What \<open>responseError\<close> returns: \<open>$q.reject(rejection)\<close> or \<open>deferred.promise\<close>.\<close>

datatype promise = RejectedWith rejection | PromiseOf handle

definition request :: "config \<Rightarrow> world \<Rightarrow> config" where
  "request c w = (if \<not> truthy (requestFilter w c) then c else requestPreprocessor w c)"

definition responseError :: "rejection \<Rightarrow> world \<Rightarrow> promise \<times> world" where
  "responseError rej w =
     (if \<not> truthy (responseErrorFilter w rej) then (RejectedWith rej, w)
      else
        let c = (case rconfig rej of None \<Rightarrow> [] | Some c' \<Rightarrow> c')
        in if \<not> truthy (get_prop c ''ignoreAuthModule'')
           then (if status rej = JNum 400
                 then (let (d, w1) = q_defer w;
                           w2 = append_entry c d w1;
                           w3 = broadcast ''event:auth-missingParameter'' (PRejection rej) w2
                       in (PromiseOf d, w3))
                 else if status rej = JNum 401
                 then (let (d, w1) = q_defer w;
                           w2 = append_entry c d w1;
                           w3 = broadcast ''event:auth-loginRequired'' (PRejection rej) w2
                       in (PromiseOf d, w3))
                 else if status rej = JNum 403
                 then (RejectedWith rej, broadcast ''event:auth-forbidden'' (PRejection rej) w)
                 else (RejectedWith rej, w))
           else (RejectedWith rej, w))"

section \<open>The module at start, and what happens between the coordinator's actions\<close>

text \<open>
  The state when the module is loaded: the three default hooks of the source, an empty
  buffer, nothing called yet.
\<close>

definition init :: world where
  "init = \<lparr>responseErrorFilter = (\<lambda>rej. JBool True),
           requestFilter = (\<lambda>c. JBool False),
           requestPreprocessor = (\<lambda>c. c),
           buffer = [],
           trace = [],
           next_deferred = 0,
           inflight = []\<rparr>"

text \<open>
  The transport promise of the \<open>k\<close>-th replay in flight settles: \<open>then\<close> runs
  \<open>successCallback\<close> or \<open>errorCallback\<close>, once.
\<close>

datatype outcome = Success jsval | Failure jsval

definition transport_settles :: "nat \<Rightarrow> outcome \<Rightarrow> world \<Rightarrow> world" where
  "transport_settles k out w =
     (if k < length (inflight w)
      then (let d = inflight w ! k;
                w1 = w\<lparr>inflight := take k (inflight w) @ drop (Suc k) (inflight w)\<rparr>
            in case out of
                 Success response \<Rightarrow> successCallback d response w1
               | Failure response \<Rightarrow> errorCallback d response w1)
      else w)"

text \<open>
  Everything that can happen to the module other than \<open>loginConfirmed\<close> and
  \<open>loginCancelled\<close>: a failed response reaches the interceptor, a hook is replaced, a
  replay in flight comes back from the transport.
\<close>

datatype activity =
    FailedResponse rejection
  | NewResponseErrorFilter "rejection \<Rightarrow> jsval"
  | NewRequestFilter "config \<Rightarrow> jsval"
  | NewRequestPreprocessor "config \<Rightarrow> config"
  | ReplaySettles nat outcome

fun perform :: "activity \<Rightarrow> world \<Rightarrow> world" where
  "perform (FailedResponse rej) w = snd (responseError rej w)"
| "perform (NewResponseErrorFilter func) w = setResponseErrorFilter func w"
| "perform (NewRequestFilter func) w = setRequestFilter func w"
| "perform (NewRequestPreprocessor func) w = setRequestPreprocessor func w"
| "perform (ReplaySettles k out) w = transport_settles k out w"

fun perform_all :: "activity list \<Rightarrow> world \<Rightarrow> world" where
  "perform_all [] w = w"
| "perform_all (a # as) w = perform_all as (perform a w)"

text \<open>
  Every deferred that the buffer, a replay in flight or a past call mentions was made by
  an earlier \<open>$q.defer()\<close>.
\<close>

fun effect_handles :: "effect \<Rightarrow> handle list" where
  "effect_handles (Broadcast name arg) = []"
| "effect_handles (HttpCall c d) = [d]"
| "effect_handles (Resolve d v) = [d]"
| "effect_handles (Reject d v) = [d]"

definition known_handles :: "world \<Rightarrow> handle list" where
  "known_handles w =
     map deferred (buffer w) @ inflight w @ concat (map effect_handles (effects w))"

definition wf_world :: "world \<Rightarrow> bool" where
  "wf_world w = list_all (\<lambda>d. d < next_deferred w) (known_handles w)"

text \<open>
  A call to the transport, and a call to the transport made while the buffer holds an
  entry with the deferred that is handed over with the request.
\<close>

fun is_request :: "effect \<Rightarrow> bool" where
  "is_request (HttpCall c d) = True"
| "is_request (Broadcast name arg) = False"
| "is_request (Resolve d v) = False"
| "is_request (Reject d v) = False"

definition called_while_buffered :: "effect \<times> entry list \<Rightarrow> bool" where
  "called_while_buffered x =
     (case fst x of
        HttpCall c d \<Rightarrow> d \<in> set (map deferred (snd x))
      | Broadcast name arg \<Rightarrow> True
      | Resolve d v \<Rightarrow> True
      | Reject d v \<Rightarrow> True)"

text \<open>
  A deferred that no call has settled and that no replay in flight will settle.
\<close>

definition unreached :: "handle \<Rightarrow> world \<Rightarrow> bool" where
  "unreached d w = (\<not> settled d w \<and> d \<notin> set (inflight w))"

section \<open>Updaters a host can pass\<close>

text \<open>An updater that puts a fresh credential into the configuration.\<close>

definition add_token :: "config \<Rightarrow> config" where
  "add_token c = (''token'', JStr ''t0k'') # c"

text \<open>An updater that throws, for instance because it has no credential to put in.\<close>

definition throwing :: "config \<Rightarrow> world \<Rightarrow> (exn + config) \<times> world" where
  "throwing c w = (Inl (Thrown (JStr ''no token'')), w)"

text \<open>
  An updater during whose run on configuration \<open>c\<close> the entries \<open>late c\<close> reach
  \<open>httpBuffer.append\<close>, one after the other, before it returns \<open>f c\<close>: appends that
  occur while \<open>retryAll\<close> is iterating.
\<close>

definition appending ::
  "(config \<Rightarrow> config) \<Rightarrow> (config \<Rightarrow> entry list) \<Rightarrow> config \<Rightarrow> world \<Rightarrow> (exn + config) \<times> world" where
  "appending f late c w =
     (Inr (f c), foldl (\<lambda>s e. append_entry (config e) (deferred e) s) w (late c))"

text \<open>
  An updater during whose every run the request it is given fails again and is parked
  again, with a new deferred.
\<close>

definition reparking :: "config \<Rightarrow> world \<Rightarrow> (exn + config) \<times> world" where
  "reparking c w = (Inr c, append_entry c (next_deferred w) (snd (q_defer w)))"

section \<open>Sample transport, rejections and states\<close>

text \<open>
  A transport for the examples. It does what \<open>$http\<close> of AngularJS does with a
  configuration whose \<open>url\<close> is not a string: it throws (\<open>$http:badreq\<close>) instead of
  returning a promise. Every other configuration it accepts.
\<close>

definition angular_http :: transport where
  "angular_http c =
     (case get_prop c ''url'' of
        JStr s \<Rightarrow> None
      | JUndefined \<Rightarrow> Some (Thrown (JStr ''badreq''))
      | JNull \<Rightarrow> Some (Thrown (JStr ''badreq''))
      | JBool b \<Rightarrow> Some (Thrown (JStr ''badreq''))
      | JNum n \<Rightarrow> Some (Thrown (JStr ''badreq''))
      | JNaN \<Rightarrow> Some (Thrown (JStr ''badreq''))
      | JObj r \<Rightarrow> Some (Thrown (JStr ''badreq'')))"

definition rej401 :: rejection where
  "rej401 = \<lparr>status = JNum 401, rconfig = Some [(''url'', JStr ''/api/items'')], rdata = JNull\<rparr>"

definition rej400 :: rejection where
  "rej400 = \<lparr>status = JNum 400, rconfig = Some [(''url'', JStr ''/api/token'')], rdata = JNull\<rparr>"

definition rej403 :: rejection where
  "rej403 = \<lparr>status = JNum 403, rconfig = Some [(''url'', JStr ''/api/admin'')], rdata = JNull\<rparr>"

definition rej500 :: rejection where
  "rej500 = \<lparr>status = JNum 500, rconfig = None, rdata = JNull\<rparr>"

definition rej401_opted_out :: rejection where
  "rej401_opted_out =
     \<lparr>status = JNum 401,
      rconfig = Some [(''url'', JStr ''/login''), (''ignoreAuthModule'', JBool True)],
      rdata = JNull\<rparr>"

text \<open>A 401 whose rejection carries no configuration: \<open>responseError\<close> parks \<open>{}\<close>.\<close>

definition rej401_no_config :: rejection where
  "rej401_no_config = \<lparr>status = JNum 401, rconfig = None, rdata = JNull\<rparr>"

definition parked_no_config :: world where
  "parked_no_config = snd (responseError rej401_no_config init)"

text \<open>The module after a 401 has been parked, and after a 400 has been parked as well.\<close>

definition parked_one :: world where
  "parked_one = snd (responseError rej401 init)"

definition parked_two :: world where
  "parked_two = snd (responseError rej400 parked_one)"

text \<open>
  An entry that arrives while the entry of \<open>/api/items\<close> is being replayed.
\<close>

definition late_entry :: entry where
  "late_entry = \<lparr>config = [(''url'', JStr ''/api/late'')], deferred = 2\<rparr>"

definition late_one :: "config \<Rightarrow> entry list" where
  "late_one c = (if c = [(''url'', JStr ''/api/items'')] then [late_entry] else [])"

section \<open>Basic facts about the collaborators\<close>

lemma emit_fields [simp]:
  "buffer (emit e w) = buffer w"
  "trace (emit e w) = trace w @ [(e, buffer w)]"
  "inflight (emit e w) = inflight w"
  "next_deferred (emit e w) = next_deferred w"
  "responseErrorFilter (emit e w) = responseErrorFilter w"
  by (simp_all add: emit_def)

lemma effects_emit [simp]: "effects (emit e w) = effects w @ [e]"
  by (simp add: effects_def)

lemma effects_update [simp]:
  "effects (w\<lparr>buffer := b\<rparr>) = effects w"
  "effects (w\<lparr>inflight := l\<rparr>) = effects w"
  "effects (w\<lparr>next_deferred := n\<rparr>) = effects w"
  by (simp_all add: effects_def)

lemma settled_append [simp]: "settled d (emit e w) = (settled d w \<or> settles d e)"
  by (simp add: settled_def)

lemma retryHttpRequest_accepted:
  "http c = None \<Longrightarrow>
     retryHttpRequest http c d w =
       (Inr (), w\<lparr>trace := trace w @ [(HttpCall c d, buffer w)], inflight := inflight w @ [d]\<rparr>)"
  by (simp add: retryHttpRequest_def emit_def)

lemma retryHttpRequest_refused:
  "http c = Some e \<Longrightarrow> retryHttpRequest http c d w = (Inl e, w)"
  by (simp add: retryHttpRequest_def)

lemma append_all_fields [simp]:
  "buffer (foldl (\<lambda>s e. append_entry (config e) (deferred e) s) w es) = buffer w @ es"
  "trace (foldl (\<lambda>s e. append_entry (config e) (deferred e) s) w es) = trace w"
  "inflight (foldl (\<lambda>s e. append_entry (config e) (deferred e) s) w es) = inflight w"
  by (induction es arbitrary: w) (simp_all add: append_entry_def)

lemma identity_transform: "identity = transform (\<lambda>c. c)"
  by (intro ext) (simp add: identity_def transform_def)

lemma not_request_called_while_buffered:
  "\<not> is_request (fst x) \<Longrightarrow> called_while_buffered x"
  by (cases "fst x") (simp_all add: called_while_buffered_def)

section \<open>The two drains\<close>

text \<open>
  With an updater that only computes and a transport that accepts what it computes,
  the loop of \<open>retryAll\<close> ends, hands every entry from index \<open>i\<close> on to the transport,
  and only then empties the buffer.
\<close>

lemma retryAll_loop_transform:
  assumes "\<forall>e \<in> set (drop i (buffer w)). http (f (config e)) = None"
  shows "retryAll_loop http (Function (transform f)) i w =
     Some (Inr (), w\<lparr>buffer := [],
                      trace := trace w @ map (\<lambda>e. (HttpCall (f (config e)) (deferred e), buffer w)) (drop i (buffer w)),
                      inflight := inflight w @ map deferred (drop i (buffer w))\<rparr>)"
  using assms
proof (induction "length (buffer w) - i" arbitrary: i w)
  case 0
  then have "\<not> i < length (buffer w)" by simp
  then show ?case
    by (subst retryAll_loop.simps) simp
next
  case (Suc n)
  then have lt: "i < length (buffer w)" by simp
  let ?c = "f (config (buffer w ! i))"
  let ?d = "deferred (buffer w ! i)"
  let ?w = "w\<lparr>trace := trace w @ [(HttpCall ?c ?d, buffer w)], inflight := inflight w @ [?d]\<rparr>"
  have dr: "drop i (buffer w) = buffer w ! i # drop (Suc i) (buffer w)"
    using lt by (simp add: Cons_nth_drop_Suc)
  have acc: "http ?c = None" using Suc.prems dr by simp
  have rest: "\<forall>e \<in> set (drop (Suc i) (buffer ?w)). http (f (config e)) = None"
    using Suc.prems dr by simp
  have n: "n = length (buffer ?w) - Suc i" using Suc.hyps(2) by simp
  have step: "retryAll_loop http (Function (transform f)) i w
              = retryAll_loop http (Function (transform f)) (Suc i) ?w"
    using lt acc by (subst retryAll_loop.simps) (simp add: transform_def retryHttpRequest_def emit_def)
  show ?case
    unfolding step Suc.hyps(1)[OF n rest]
    by (simp add: dr)
qed

lemma retryAll_transform:
  assumes "\<forall>e \<in> set (buffer w). http (f (config e)) = None"
  shows "retryAll http (Function (transform f)) w =
     Some (Inr (), w\<lparr>buffer := [],
                      trace := trace w @ map (\<lambda>e. (HttpCall (f (config e)) (deferred e), buffer w)) (buffer w),
                      inflight := inflight w @ map deferred (buffer w)\<rparr>)"
  using retryAll_loop_transform[of 0 w http f] assms by (simp add: retryAll_def)

lemma retryAll_empty:
  "buffer w = [] \<Longrightarrow> retryAll http updater w = Some (Inr (), w)"
  by (simp add: retryAll_def retryAll_loop.simps)

lemma rejectAll_loop_eq:
  "rejectAll_loop reason i w =
     w\<lparr>trace := trace w @ map (\<lambda>e. (Reject (deferred e) reason, buffer w)) (drop i (buffer w))\<rparr>"
proof (induction "length (buffer w) - i" arbitrary: i w)
  case 0
  then have "\<not> i < length (buffer w)" by simp
  then show ?case
    by (subst rejectAll_loop.simps) simp
next
  case (Suc n)
  then have lt: "i < length (buffer w)" by simp
  let ?w = "deferred_reject (deferred (buffer w ! i)) reason w"
  have n: "n = length (buffer ?w) - Suc i" using Suc.hyps(2) by (simp add: deferred_reject_def)
  have step: "rejectAll_loop reason i w = rejectAll_loop reason (Suc i) ?w"
    using lt by (subst rejectAll_loop.simps) simp
  show ?case
    unfolding step Suc.hyps(1)[OF n]
    using lt by (simp add: Cons_nth_drop_Suc[symmetric] deferred_reject_def emit_def)
qed

text \<open>
  What \<open>retryAll\<close> throws comes from one of three places: the updater, the read of
  \<open>buffer[i].deferred\<close> after the updater has shortened the buffer, the transport. Let
  \<open>ok\<close> hold of the configurations the buffer holds, and let the updater, called on an
  \<open>ok\<close> configuration while the buffer holds only such, return a configuration the
  transport accepts and leave a buffer that is no shorter and still holds only such.
  Then the loop throws nothing, however long it runs.
\<close>

lemma retryAll_loop_no_throw:
  assumes run: "retryAll_loop http (Function u) i w = Some r"
    and start: "\<forall>e \<in> set (buffer w). ok (config e)"
    and u: "\<forall>c s. ok c \<and> (\<forall>e \<in> set (buffer s). ok (config e)) \<longrightarrow>
              (\<exists>c' s'. u c s = (Inr c', s') \<and> length (buffer s) \<le> length (buffer s')
                 \<and> (\<forall>e \<in> set (buffer s'). ok (config e)) \<and> http c' = None)"
  shows "\<exists>w'. r = (Inr (), w')"
proof -
  have "http = http \<and> Function u = Function u \<and> (\<forall>e \<in> set (buffer w). ok (config e))
          \<longrightarrow> (\<exists>w'. r = (Inr (), w'))"
  proof (rule retryAll_loop.raw_induct
        [where P = "\<lambda>h up i w r. h = http \<and> up = Function u \<and> (\<forall>e \<in> set (buffer w). ok (config e))
                       \<longrightarrow> (\<exists>w'. r = (Inr (), w'))",
         OF _ run])
    fix loop :: "transport \<Rightarrow> updater \<Rightarrow> nat \<Rightarrow> world \<Rightarrow> ((exn + unit) \<times> world) option"
    fix h up i w r
    assume IH: "\<And>h up i w r. loop h up i w = Some r \<Longrightarrow>
                  h = http \<and> up = Function u \<and> (\<forall>e \<in> set (buffer w). ok (config e))
                    \<longrightarrow> (\<exists>w'. r = (Inr (), w'))"
    assume body:
      "(if i < length (buffer w)
        then (case call up (config (buffer w ! i)) w of
                (Inl e, w1) \<Rightarrow> Some (Inl e, w1)
              | (Inr c, w1) \<Rightarrow>
                  if i < length (buffer w1)
                  then (case retryHttpRequest h c (deferred (buffer w1 ! i)) w1 of
                          (Inl e, w2) \<Rightarrow> Some (Inl e, w2)
                        | (Inr u, w2) \<Rightarrow> loop h up (Suc i) w2)
                  else Some (Inl TypeError, w1))
        else Some (Inr (), w\<lparr>buffer := []\<rparr>)) = Some r"
    show "h = http \<and> up = Function u \<and> (\<forall>e \<in> set (buffer w). ok (config e))
            \<longrightarrow> (\<exists>w'. r = (Inr (), w'))"
    proof
      assume hu: "h = http \<and> up = Function u \<and> (\<forall>e \<in> set (buffer w). ok (config e))"
      show "\<exists>w'. r = (Inr (), w')"
      proof (cases "i < length (buffer w)")
        case False
        with body show ?thesis by auto
      next
        case True
        then have "ok (config (buffer w ! i))" using hu by simp
        with u hu obtain c' s' where
          c': "u (config (buffer w ! i)) w = (Inr c', s')" "length (buffer w) \<le> length (buffer s')"
              "\<forall>e \<in> set (buffer s'). ok (config e)" "http c' = None"
          by blast
        let ?w2 = "s'\<lparr>trace := trace s' @ [(HttpCall c' (deferred (buffer s' ! i)), buffer s')],
                       inflight := inflight s' @ [deferred (buffer s' ! i)]\<rparr>"
        from True c'(2) have lt: "i < length (buffer s')" by simp
        from body True hu c' lt have "loop http (Function u) (Suc i) ?w2 = Some r"
          by (simp add: retryHttpRequest_def emit_def)
        from IH[OF this] c'(3) show ?thesis by simp
      qed
    qed
  qed
  with start show ?thesis by simp
qed

text \<open>
  When the updater moreover leaves \<open>buffer\<close> and the replays in flight as they are, the
  loop ends, and the replays it has put in flight are those of the entries from index
  \<open>i\<close> on, in order.
\<close>

lemma retryAll_loop_well_behaved:
  assumes start: "\<forall>e \<in> set (buffer w). ok (config e)"
    and u: "\<forall>c s. ok c \<and> (\<forall>e \<in> set (buffer s). ok (config e)) \<longrightarrow>
              (\<exists>c' s'. u c s = (Inr c', s') \<and> length (buffer s) \<le> length (buffer s')
                 \<and> (\<forall>e \<in> set (buffer s'). ok (config e)) \<and> http c' = None)"
    and keeps: "\<forall>c s. buffer (snd (u c s)) = buffer s \<and> inflight (snd (u c s)) = inflight s"
  shows "\<exists>w'. retryAll_loop http (Function u) i w = Some (Inr (), w')
           \<and> buffer w' = []
           \<and> inflight w' = inflight w @ map deferred (drop i (buffer w))"
  using start
proof (induction "length (buffer w) - i" arbitrary: i w)
  case 0
  then have "\<not> i < length (buffer w)" by simp
  then show ?case
    by (subst retryAll_loop.simps) simp
next
  case (Suc n)
  then have lt: "i < length (buffer w)" by simp
  then have "ok (config (buffer w ! i))" using Suc.prems by simp
  with u Suc.prems obtain c' s' where
    c': "u (config (buffer w ! i)) w = (Inr c', s')" "http c' = None"
    by blast
  from keeps[rule_format, of "config (buffer w ! i)" w] c'(1)
  have k: "buffer s' = buffer w" "inflight s' = inflight w" by simp_all
  let ?d = "deferred (buffer w ! i)"
  let ?w2 = "s'\<lparr>trace := trace s' @ [(HttpCall c' ?d, buffer s')], inflight := inflight s' @ [?d]\<rparr>"
  have n: "n = length (buffer ?w2) - Suc i" using Suc.hyps(2) k(1) by simp
  have ok2: "\<forall>e \<in> set (buffer ?w2). ok (config e)" using Suc.prems k(1) by simp
  have step: "retryAll_loop http (Function u) i w = retryAll_loop http (Function u) (Suc i) ?w2"
    using lt c' k by (subst retryAll_loop.simps) (simp add: retryHttpRequest_def emit_def)
  from Suc.hyps(1)[OF n ok2] obtain w' where
    w': "retryAll_loop http (Function u) (Suc i) ?w2 = Some (Inr (), w')" "buffer w' = []"
        "inflight w' = inflight ?w2 @ map deferred (drop (Suc i) (buffer ?w2))"
    by blast
  have "inflight w' = inflight w @ map deferred (drop i (buffer w))"
    unfolding w'(3) using lt k by (simp add: Cons_nth_drop_Suc[symmetric])
  with w'(1,2) step show ?case by simp
qed

lemma transport_failure_effects:
  assumes "k < length (inflight w)"
  shows "effects (transport_settles k (Failure response) w) = effects w @ [Reject (inflight w ! k) response]"
  using assms
  by (simp add: transport_settles_def Let_def errorCallback_def deferred_reject_def effects_def emit_def)

text \<open>
  Appends during the drain. The entries still to be replayed are those from index \<open>i\<close>
  on, then the ones their replay will bring in; the sum of the two lengths goes down by
  one at every turn of the loop.
\<close>

lemma concat_late_nil:
  "\<forall>e \<in> set es. late (config e) = [] \<Longrightarrow> concat (map (\<lambda>e. late (config e)) es) = []"
  by (induction es) simp_all

lemma retryAll_loop_appending:
  assumes "\<forall>e \<in> set (drop i (buffer w)).
             http (f (config e)) = None
             \<and> (\<forall>e' \<in> set (late (config e)). late (config e') = [] \<and> http (f (config e')) = None)"
  shows "\<exists>w'. retryAll_loop http (Function (appending f late)) i w = Some (Inr (), w')
           \<and> buffer w' = []
           \<and> effects w' = effects w @ map (\<lambda>e. HttpCall (f (config e)) (deferred e))
                 (drop i (buffer w) @ concat (map (\<lambda>e. late (config e)) (drop i (buffer w))))"
  using assms
proof (induction "length (drop i (buffer w) @ concat (map (\<lambda>e. late (config e)) (drop i (buffer w))))"
        arbitrary: i w)
  case 0
  then have "\<not> i < length (buffer w)" by simp
  then show ?case
    by (subst retryAll_loop.simps) (simp add: effects_def)
next
  case (Suc n)
  show ?case
  proof (cases "i < length (buffer w)")
    case False
    then show ?thesis
      by (subst retryAll_loop.simps) (simp add: effects_def)
  next
    case lt: True
    let ?e = "buffer w ! i"
    let ?L = "\<lambda>e. late (config e)"
    let ?w1 = "foldl (\<lambda>s e. append_entry (config e) (deferred e) s) w (late (config ?e))"
    let ?w2 = "?w1\<lparr>trace := trace ?w1 @ [(HttpCall (f (config ?e)) (deferred ?e), buffer ?w1)],
                    inflight := inflight ?w1 @ [deferred ?e]\<rparr>"
    have dr: "drop i (buffer w) = ?e # drop (Suc i) (buffer w)"
      using lt by (simp add: Cons_nth_drop_Suc)
    have dr2: "drop (Suc i) (buffer ?w2) = drop (Suc i) (buffer w) @ late (config ?e)"
      using lt by simp
    have here: "?e \<in> set (drop i (buffer w))" by (subst dr) simp
    have acc: "http (f (config ?e)) = None"
      using Suc.prems here by blast
    have late_ok: "\<forall>e' \<in> set (late (config ?e)). late (config e') = [] \<and> http (f (config e')) = None"
      using Suc.prems here by blast
    have cl: "concat (map ?L (late (config ?e))) = []"
      using late_ok by (intro concat_late_nil) simp
    have inv: "\<forall>e \<in> set (drop (Suc i) (buffer ?w2)).
                 http (f (config e)) = None
                 \<and> (\<forall>e' \<in> set (late (config e)). late (config e') = [] \<and> http (f (config e')) = None)"
    proof
      fix e assume "e \<in> set (drop (Suc i) (buffer ?w2))"
      then consider "e \<in> set (drop (Suc i) (buffer w))" | "e \<in> set (late (config ?e))"
        unfolding dr2 by auto
      then show "http (f (config e)) = None
                 \<and> (\<forall>e' \<in> set (late (config e)). late (config e') = [] \<and> http (f (config e')) = None)"
      proof cases
        case 1
        then have "e \<in> set (drop i (buffer w))" by (subst dr) simp
        then show ?thesis using Suc.prems by blast
      next
        case 2
        then show ?thesis using late_ok by simp
      qed
    qed
    have n: "n = length (drop (Suc i) (buffer ?w2) @ concat (map ?L (drop (Suc i) (buffer ?w2))))"
    proof -
      have "Suc n = length (?e # drop (Suc i) (buffer w) @ concat (map ?L (?e # drop (Suc i) (buffer w))))"
        using Suc.hyps(2) dr by simp
      then show ?thesis unfolding dr2 using cl by simp
    qed
    have nth: "buffer ?w1 ! i = ?e" using lt by (simp add: nth_append)
    have step: "retryAll_loop http (Function (appending f late)) i w
                = retryAll_loop http (Function (appending f late)) (Suc i) ?w2"
      using lt nth acc
      by (subst retryAll_loop.simps) (simp add: appending_def retryHttpRequest_def emit_def)
    from Suc.hyps(1)[OF n inv] obtain w' where
      w': "retryAll_loop http (Function (appending f late)) (Suc i) ?w2 = Some (Inr (), w')"
          "buffer w' = []"
          "effects w' = effects ?w2 @ map (\<lambda>e. HttpCall (f (config e)) (deferred e))
                 (drop (Suc i) (buffer ?w2) @ concat (map ?L (drop (Suc i) (buffer ?w2))))"
      by blast
    have "effects w' = effects w @ map (\<lambda>e. HttpCall (f (config e)) (deferred e))
                 (drop i (buffer w) @ concat (map ?L (drop i (buffer w))))"
      unfolding w'(3) dr2 by (simp add: dr cl effects_def)
    with w'(1,2) step show ?thesis by simp
  qed
qed

text \<open>
  Whatever the updater and the transport do, every request the loop itself hands to the
  transport goes out while the buffer holds an entry with the deferred handed over, and
  the buffer is emptied only where the loop ends. The updater is taken to make no
  transport call of its own.
\<close>

lemma retryAll_loop_calls_while_buffered:
  assumes run: "retryAll_loop http updater i w = Some r"
    and quiet: "\<forall>c s. \<exists>new. trace (snd (call updater c s)) = trace s @ new
                  \<and> list_all (\<lambda>x. \<not> is_request (fst x)) new"
  shows "(\<exists>new. trace (snd r) = trace w @ new \<and> list_all called_while_buffered new)
         \<and> (fst r = Inr () \<longrightarrow> buffer (snd r) = [])"
proof -
  let ?Q = "\<lambda>w r. (\<exists>new. trace (snd r) = trace w @ new \<and> list_all called_while_buffered new)
                   \<and> (fst r = Inr () \<longrightarrow> buffer (snd r) = [])"
  have "http = http \<and> updater = updater \<longrightarrow> ?Q w r"
  proof (rule retryAll_loop.raw_induct
        [where P = "\<lambda>h up i w r. h = http \<and> up = updater \<longrightarrow> ?Q w r", OF _ run])
    fix loop :: "transport \<Rightarrow> updater \<Rightarrow> nat \<Rightarrow> world \<Rightarrow> ((exn + unit) \<times> world) option"
    fix h up i w r
    assume IH: "\<And>h up i w r. loop h up i w = Some r \<Longrightarrow> h = http \<and> up = updater \<longrightarrow> ?Q w r"
    assume body:
      "(if i < length (buffer w)
        then (case call up (config (buffer w ! i)) w of
                (Inl e, w1) \<Rightarrow> Some (Inl e, w1)
              | (Inr c, w1) \<Rightarrow>
                  if i < length (buffer w1)
                  then (case retryHttpRequest h c (deferred (buffer w1 ! i)) w1 of
                          (Inl e, w2) \<Rightarrow> Some (Inl e, w2)
                        | (Inr u, w2) \<Rightarrow> loop h up (Suc i) w2)
                  else Some (Inl TypeError, w1))
        else Some (Inr (), w\<lparr>buffer := []\<rparr>)) = Some r"
    show "h = http \<and> up = updater \<longrightarrow> ?Q w r"
    proof
      assume hu: "h = http \<and> up = updater"
      show "?Q w r"
      proof (cases "i < length (buffer w)")
        case False
        with body have "r = (Inr (), w\<lparr>buffer := []\<rparr>)" by simp
        then show ?thesis by simp
      next
        case True
        obtain x w1 where call: "call updater (config (buffer w ! i)) w = (x, w1)"
          by (cases "call updater (config (buffer w ! i)) w")
        from quiet call obtain new1 where
          new1: "trace w1 = trace w @ new1" "list_all (\<lambda>x. \<not> is_request (fst x)) new1"
          by (metis snd_conv)
        from new1(2) have cw1: "list_all called_while_buffered new1"
          by (simp add: list_all_iff not_request_called_while_buffered)
        show ?thesis
        proof (cases x)
          case (Inl e)
          with body True hu call have "r = (Inl e, w1)" by simp
          with new1(1) cw1 show ?thesis by auto
        next
          case (Inr c)
          show ?thesis
          proof (cases "i < length (buffer w1)")
            case False
            with body True hu call Inr have "r = (Inl TypeError, w1)" by simp
            with new1(1) cw1 show ?thesis by auto
          next
            case lt1: True
            let ?d = "deferred (buffer w1 ! i)"
            show ?thesis
            proof (cases "http c")
              case (Some e)
              with body True hu call Inr lt1 have "r = (Inl e, w1)"
                by (simp add: retryHttpRequest_def)
              with new1(1) cw1 show ?thesis by auto
            next
              case None
              let ?w2 = "w1\<lparr>trace := trace w1 @ [(HttpCall c ?d, buffer w1)],
                             inflight := inflight w1 @ [?d]\<rparr>"
              from body True hu call Inr lt1 None have "loop http updater (Suc i) ?w2 = Some r"
                by (simp add: retryHttpRequest_def emit_def)
              from IH[OF this] obtain new2 where
                new2: "trace (snd r) = trace ?w2 @ new2" "list_all called_while_buffered new2"
                and fin: "fst r = Inr () \<longrightarrow> buffer (snd r) = []"
                by auto
              have here: "called_while_buffered (HttpCall c ?d, buffer w1)"
                using lt1 by (simp add: called_while_buffered_def)
              have "trace (snd r) = trace w @ (new1 @ (HttpCall c ?d, buffer w1) # new2)"
                using new2(1) new1(1) by simp
              moreover have "list_all called_while_buffered (new1 @ (HttpCall c ?d, buffer w1) # new2)"
                using cw1 here new2(2) by simp
              ultimately show ?thesis using fin by blast
            qed
          qed
        qed
      qed
    qed
  qed
  then show ?thesis by simp
qed

text \<open>
  The loop need not end: with an updater that parks one more entry at every turn,
  \<open>i\<close> never reaches \<open>buffer.length\<close> and \<open>retryAll\<close> does not return.
\<close>

lemma retryAll_loop_reparking:
  assumes run: "retryAll_loop http updater i w = Some r"
  shows "\<not> (updater = Function reparking \<and> i < length (buffer w)
            \<and> (\<forall>e \<in> set (buffer w). http (config e) = None))"
proof -
  have "http = http \<longrightarrow> \<not> (updater = Function reparking \<and> i < length (buffer w)
            \<and> (\<forall>e \<in> set (buffer w). http (config e) = None))"
  proof (rule retryAll_loop.raw_induct
        [where P = "\<lambda>h up i w r. h = http \<longrightarrow> \<not> (up = Function reparking \<and> i < length (buffer w)
            \<and> (\<forall>e \<in> set (buffer w). http (config e) = None))",
         OF _ run])
    fix loop :: "transport \<Rightarrow> updater \<Rightarrow> nat \<Rightarrow> world \<Rightarrow> ((exn + unit) \<times> world) option"
    fix h up i w r
    assume IH: "\<And>h up i w r. loop h up i w = Some r \<Longrightarrow>
                  h = http \<longrightarrow> \<not> (up = Function reparking \<and> i < length (buffer w)
                     \<and> (\<forall>e \<in> set (buffer w). http (config e) = None))"
    assume body:
      "(if i < length (buffer w)
        then (case call up (config (buffer w ! i)) w of
                (Inl e, w1) \<Rightarrow> Some (Inl e, w1)
              | (Inr c, w1) \<Rightarrow>
                  if i < length (buffer w1)
                  then (case retryHttpRequest h c (deferred (buffer w1 ! i)) w1 of
                          (Inl e, w2) \<Rightarrow> Some (Inl e, w2)
                        | (Inr u, w2) \<Rightarrow> loop h up (Suc i) w2)
                  else Some (Inl TypeError, w1))
        else Some (Inr (), w\<lparr>buffer := []\<rparr>)) = Some r"
    show "h = http \<longrightarrow> \<not> (up = Function reparking \<and> i < length (buffer w)
            \<and> (\<forall>e \<in> set (buffer w). http (config e) = None))"
    proof (intro impI notI)
      assume h: "h = http"
        and a: "up = Function reparking \<and> i < length (buffer w)
                \<and> (\<forall>e \<in> set (buffer w). http (config e) = None)"
      let ?w1 = "append_entry (config (buffer w ! i)) (next_deferred w) (snd (q_defer w))"
      let ?d = "deferred (buffer ?w1 ! i)"
      let ?w2 = "?w1\<lparr>trace := trace ?w1 @ [(HttpCall (config (buffer w ! i)) ?d, buffer ?w1)],
                      inflight := inflight ?w1 @ [?d]\<rparr>"
      have acc: "http (config (buffer w ! i)) = None" using a by simp
      have len: "Suc i < length (buffer ?w2)"
        using a by (simp add: append_entry_def q_defer_def)
      have all: "\<forall>e \<in> set (buffer ?w2). http (config e) = None"
        using a acc by (auto simp: append_entry_def q_defer_def)
      have "loop http up (Suc i) ?w2 = Some r"
        using body a h acc
        by (simp add: reparking_def append_entry_def q_defer_def retryHttpRequest_def emit_def)
      from IH[OF this] a len all show False by simp
    qed
  qed
  then show ?thesis by simp
qed

lemma retryAll_reparking:
  assumes "buffer w \<noteq> []" and "\<forall>e \<in> set (buffer w). http (config e) = None"
  shows "retryAll http (Function reparking) w = None"
proof (cases "retryAll http (Function reparking) w")
  case None
  then show ?thesis .
next
  case (Some r)
  then have "retryAll_loop http (Function reparking) 0 w = Some r" by (simp add: retryAll_def)
  from retryAll_loop_reparking[OF this] assms show ?thesis by simp
qed

section \<open>Deferreds nobody has reached yet\<close>

lemma responseError_trace_cases:
  "\<exists>name. snd (responseError rej w) = w
     \<or> (trace (snd (responseError rej w)) = trace w @ [(Broadcast name (PRejection rej), buffer (snd (responseError rej w)))]
         \<and> inflight (snd (responseError rej w)) = inflight w)"
  by (simp add: responseError_def Let_def q_defer_def append_entry_def broadcast_def emit_def)

lemma unreached_responseError:
  "unreached d w \<Longrightarrow> unreached d (snd (responseError rej w))"
  using responseError_trace_cases[of rej w]
  by (auto simp: unreached_def settled_def effects_def)

lemma unreached_transport_settles:
  assumes "unreached d w"
  shows "unreached d (transport_settles k out w)"
proof (cases "k < length (inflight w)")
  case False
  then show ?thesis using assms by (simp add: transport_settles_def)
next
  case True
  then have "inflight w ! k \<in> set (inflight w)" by simp
  with assms have ne: "inflight w ! k \<noteq> d" by (auto simp: unreached_def)
  have sub: "set (take k (inflight w) @ drop (Suc k) (inflight w)) \<subseteq> set (inflight w)"
    by (auto dest: in_set_takeD in_set_dropD)
  show ?thesis
    using assms True ne sub
    by (cases out)
       (auto simp: transport_settles_def unreached_def Let_def successCallback_def errorCallback_def
          deferred_resolve_def deferred_reject_def settled_def effects_def emit_def)
qed

lemma unreached_perform: "unreached d w \<Longrightarrow> unreached d (perform a w)"
proof (cases a)
  case (FailedResponse rej)
  assume "unreached d w"
  then show ?thesis using FailedResponse by (simp add: unreached_responseError)
next
  case (ReplaySettles k out)
  assume "unreached d w"
  then show ?thesis using ReplaySettles by (simp add: unreached_transport_settles)
qed (auto simp: unreached_def settled_def effects_def setResponseErrorFilter_def
       setRequestFilter_def setRequestPreprocessor_def)

lemma unreached_perform_all: "unreached d w \<Longrightarrow> unreached d (perform_all acts w)"
  by (induction acts arbitrary: w) (simp_all add: unreached_perform)

lemma wf_world_fresh:
  assumes "wf_world w"
  shows "next_deferred w \<notin> set (known_handles w)"
  using assms by (auto simp: wf_world_def list_all_iff)

lemma settled_known: "settled d w \<Longrightarrow> d \<in> set (known_handles w)"
proof -
  assume "settled d w"
  then obtain e where e: "e \<in> set (effects w)" "settles d e"
    by (auto simp: settled_def list_ex_iff)
  from e(2) have "d \<in> set (effect_handles e)" by (cases e) simp_all
  with e show ?thesis by (auto simp: known_handles_def)
qed

lemma fresh_unreached:
  assumes "wf_world w"
  shows "unreached (next_deferred w) w"
  using wf_world_fresh[OF assms] settled_known[of "next_deferred w" w]
  by (auto simp: unreached_def known_handles_def)

text \<open>
  \<open>wf_world\<close> holds when the module is loaded and whatever the module does next keeps it.
\<close>

lemma wf_world_init: "wf_world init"
  by (simp add: wf_world_def known_handles_def init_def effects_def)

lemma wf_world_responseError: "wf_world w \<Longrightarrow> wf_world (snd (responseError rej w))"
  by (auto simp: wf_world_def known_handles_def responseError_def Let_def q_defer_def append_entry_def
        broadcast_def emit_def effects_def list_all_iff less_Suc_eq)

lemma wf_world_transport_settles:
  assumes "wf_world w"
  shows "wf_world (transport_settles k out w)"
proof (cases "k < length (inflight w)")
  case False
  then show ?thesis using assms by (simp add: transport_settles_def)
next
  case True
  then have "inflight w ! k \<in> set (inflight w)" by simp
  with assms have b: "inflight w ! k < next_deferred w"
    by (auto simp: wf_world_def known_handles_def list_all_iff)
  have sub: "set (take k (inflight w) @ drop (Suc k) (inflight w)) \<subseteq> set (inflight w)"
    by (auto dest: in_set_takeD in_set_dropD)
  show ?thesis
    using assms True b sub
    by (cases out)
       (auto simp: transport_settles_def wf_world_def known_handles_def Let_def successCallback_def
          errorCallback_def deferred_resolve_def deferred_reject_def effects_def emit_def list_all_iff)
qed

lemma wf_world_perform:
  assumes "wf_world w"
  shows "wf_world (perform a w)"
proof (cases a)
  case (FailedResponse rej)
  then show ?thesis using assms by (simp add: wf_world_responseError)
next
  case (ReplaySettles k out)
  then show ?thesis using assms by (simp add: wf_world_transport_settles)
next
  case (NewResponseErrorFilter func)
  then show ?thesis using assms
    by (simp add: wf_world_def known_handles_def effects_def setResponseErrorFilter_def)
next
  case (NewRequestFilter func)
  then show ?thesis using assms
    by (simp add: wf_world_def known_handles_def effects_def setRequestFilter_def)
next
  case (NewRequestPreprocessor func)
  then show ?thesis using assms
    by (simp add: wf_world_def known_handles_def effects_def setRequestPreprocessor_def)
qed

lemma wf_world_loginCancelled: "wf_world w \<Longrightarrow> wf_world (loginCancelled data reason w)"
  by (auto simp: wf_world_def known_handles_def loginCancelled_def rejectAll_def rejectAll_loop_eq
        broadcast_def emit_def effects_def list_all_iff)

lemma wf_world_loginConfirmed:
  assumes "wf_world w" and "\<forall>e \<in> set (buffer w). http (f (config e)) = None"
    and "loginConfirmed http data (Function (transform f)) w = Some (r, w')"
  shows "wf_world w'"
proof -
  let ?w1 = "broadcast ''event:auth-loginConfirmed'' (PData data) w"
  have "\<forall>e \<in> set (buffer ?w1). http (f (config e)) = None"
    using assms(2) by (simp add: broadcast_def)
  from retryAll_transform[where w = ?w1 and http = http and f = f, OF this] assms(1,3) show ?thesis
    by (fastforce simp: wf_world_def known_handles_def loginConfirmed_def
          broadcast_def emit_def effects_def list_all_iff)
qed

section \<open>The sample states, spelled out\<close>

lemma parked_one_eq:
  "parked_one = init\<lparr>buffer := [\<lparr>config = [(''url'', JStr ''/api/items'')], deferred = 0\<rparr>],
     trace := [(Broadcast ''event:auth-loginRequired'' (PRejection rej401), [\<lparr>config = [(''url'', JStr ''/api/items'')], deferred = 0\<rparr>])],
     next_deferred := Suc 0\<rparr>"
  by (simp add: parked_one_def responseError_def init_def rej401_def q_defer_def append_entry_def
      broadcast_def emit_def get_prop_def Let_def)

lemma parked_one_buffer: "buffer parked_one = [\<lparr>config = [(''url'', JStr ''/api/items'')], deferred = 0\<rparr>]"
  by (simp add: parked_one_eq)

lemma parked_one_effects:
  "effects parked_one = [Broadcast ''event:auth-loginRequired'' (PRejection rej401)]"
  by (simp add: parked_one_eq effects_def)

lemma wf_world_parked_one: "wf_world parked_one"
  unfolding parked_one_def by (intro wf_world_responseError wf_world_init)

lemma parked_two_buffer:
  "buffer parked_two = [\<lparr>config = [(''url'', JStr ''/api/items'')], deferred = 0\<rparr>,
                        \<lparr>config = [(''url'', JStr ''/api/token'')], deferred = 1\<rparr>]"
  by (simp add: parked_two_def parked_one_eq responseError_def init_def rej400_def q_defer_def
      append_entry_def broadcast_def emit_def get_prop_def Let_def)

lemma parked_two_effects:
  "effects parked_two = [Broadcast ''event:auth-loginRequired'' (PRejection rej401),
                         Broadcast ''event:auth-missingParameter'' (PRejection rej400)]"
  by (simp add: parked_two_def parked_one_eq responseError_def init_def rej400_def q_defer_def
      append_entry_def broadcast_def emit_def get_prop_def Let_def effects_def)

lemma parked_two_inflight: "inflight parked_two = []"
  by (simp add: parked_two_def parked_one_eq responseError_def init_def rej400_def q_defer_def
      append_entry_def broadcast_def emit_def get_prop_def Let_def)

lemma parked_no_config_eq:
  "parked_no_config = init\<lparr>buffer := [\<lparr>config = [], deferred = 0\<rparr>],
     trace := [(Broadcast ''event:auth-loginRequired'' (PRejection rej401_no_config), [\<lparr>config = [], deferred = 0\<rparr>])],
     next_deferred := Suc 0\<rparr>"
  by (simp add: parked_no_config_def responseError_def init_def rej401_no_config_def q_defer_def
      append_entry_def broadcast_def emit_def get_prop_def Let_def)

lemma angular_http_url [simp]: "angular_http ((''url'', JStr s) # c) = None"
  by (simp add: angular_http_def get_prop_def)

lemma angular_http_token_url [simp]: "angular_http ((''token'', v) # (''url'', JStr s) # c) = None"
  by (simp add: angular_http_def get_prop_def)

lemma angular_http_empty [simp]: "angular_http [] = Some (Thrown (JStr ''badreq''))"
  by (simp add: angular_http_def get_prop_def)

text \<open>
  The transport can throw out of \<open>loginConfirmed\<close>: with the \<open>{}\<close> that a rejection
  without configuration has parked, and no updater, \<open>$http({})\<close> throws, the
  exception reaches the caller of \<open>loginConfirmed\<close> after the broadcast, no request has
  gone out and the entry is still in the buffer.
\<close>

lemma loginConfirmed_refused_config:
  "loginConfirmed angular_http JNull (NotFunction JUndefined) parked_no_config =
     Some (Inl (Thrown (JStr ''badreq'')),
           parked_no_config\<lparr>trace := trace parked_no_config @
             [(Broadcast ''event:auth-loginConfirmed'' (PData JNull), buffer parked_no_config)]\<rparr>)"
  by (simp add: loginConfirmed_def retryAll_def retryAll_loop.simps broadcast_def emit_def identity_def
        retryHttpRequest_def parked_no_config_eq)

section \<open>The claims\<close>

subsection \<open>C1: an append during a drain\<close>

text \<open>
  Claim C1, as the code has it. \<open>retryAll\<close> takes no snapshot: it iterates the live
  \<open>buffer\<close> and reads \<open>buffer.length\<close> at every turn. Take a drain whose updater, besides
  returning the updated configuration, does nothing but append entries (the entries so
  appended bringing in no further ones), and whose transport accepts the updated
  configuration of every buffered and of every appended entry. An entry appended while
  that drain is iterating is not lost and is not replayed twice: the same drain replays
  it, once, after the entries that were buffered before it, and the buffer is empty when
  the drain completes. (An updater that also empties the buffer, or a transport that
  throws, is outside this statement; \<open>rejectAll_loop\<close> calls nothing but
  \<open>deferred.reject\<close>, so nothing is appended during that drain.)
\<close>

theorem retryAll_late_append:
  assumes "\<forall>e \<in> set (buffer w).
             http (f (config e)) = None
             \<and> (\<forall>e' \<in> set (late (config e)). late (config e') = [] \<and> http (f (config e')) = None)"
  shows "\<exists>w'. retryAll http (Function (appending f late)) w = Some (Inr (), w')
           \<and> buffer w' = []
           \<and> effects w' = effects w @ map (\<lambda>e. HttpCall (f (config e)) (deferred e))
                 (buffer w @ concat (map (\<lambda>e. late (config e)) (buffer w)))"
  using retryAll_loop_appending[of 0 w http f late] assms by (simp add: retryAll_def)

theorem retryAll_late_append_witness:
  "concat (map (\<lambda>e. late_one (config e)) (buffer parked_two)) = [late_entry]
   \<and> late_one (config late_entry) = []
   \<and> angular_http (add_token (config late_entry)) = None
   \<and> (\<exists>w'. retryAll angular_http (Function (appending add_token late_one)) parked_two = Some (Inr (), w')
        \<and> buffer w' = []
        \<and> effects w' = effects parked_two @
            [HttpCall [(''token'', JStr ''t0k''), (''url'', JStr ''/api/items'')] 0,
             HttpCall [(''token'', JStr ''t0k''), (''url'', JStr ''/api/token'')] 1,
             HttpCall [(''token'', JStr ''t0k''), (''url'', JStr ''/api/late'')] 2])"
proof -
  have h: "\<forall>e \<in> set (buffer parked_two).
             angular_http (add_token (config e)) = None
             \<and> (\<forall>e' \<in> set (late_one (config e)).
                   late_one (config e') = [] \<and> angular_http (add_token (config e')) = None)"
    by (simp add: parked_two_buffer late_one_def late_entry_def add_token_def)
  from retryAll_late_append [where http = angular_http and f = add_token and late = late_one
                               and w = parked_two, OF h] obtain w' where
    w': "retryAll angular_http (Function (appending add_token late_one)) parked_two = Some (Inr (), w')"
        "buffer w' = []"
        "effects w' = effects parked_two @ map (\<lambda>e. HttpCall (add_token (config e)) (deferred e))
                 (buffer parked_two @ concat (map (\<lambda>e. late_one (config e)) (buffer parked_two)))"
    by blast
  from w'(3) have "effects w' = effects parked_two @
            [HttpCall [(''token'', JStr ''t0k''), (''url'', JStr ''/api/items'')] 0,
             HttpCall [(''token'', JStr ''t0k''), (''url'', JStr ''/api/token'')] 1,
             HttpCall [(''token'', JStr ''t0k''), (''url'', JStr ''/api/late'')] 2]"
    by (simp add: parked_two_buffer late_one_def late_entry_def add_token_def)
  moreover have "concat (map (\<lambda>e. late_one (config e)) (buffer parked_two)) = [late_entry]"
    by (simp add: parked_two_buffer late_one_def)
  moreover have "late_one (config late_entry) = []"
    by (simp add: late_one_def late_entry_def)
  moreover have "angular_http (add_token (config late_entry)) = None"
    by (simp add: late_entry_def add_token_def)
  ultimately show ?thesis using w'(1,2) by blast
qed

text \<open>
  Claim C1 as stated fails. Two entries are buffered; while the first is being replayed
  \<open>late_entry\<close> is appended. The drain hands \<open>late_entry\<close> to the transport as its third
  call and then assigns \<open>buffer = []\<close>: the entry is not in the buffer after the drain.
\<close>

theorem retryAll_late_entry_not_kept:
  "retryAll angular_http (Function (appending add_token late_one)) parked_two =
     Some (Inr (),
       parked_two\<lparr>buffer := [],
         trace := trace parked_two @
           [(HttpCall (add_token [(''url'', JStr ''/api/items'')]) 0, buffer parked_two @ [late_entry]),
            (HttpCall (add_token [(''url'', JStr ''/api/token'')]) 1, buffer parked_two @ [late_entry]),
            (HttpCall (add_token (config late_entry)) (deferred late_entry), buffer parked_two @ [late_entry])],
         inflight := [0, 1, 2]\<rparr>)"
  by (simp add: retryAll_def retryAll_loop.simps appending_def parked_two_buffer late_one_def
        late_entry_def append_entry_def retryHttpRequest_def emit_def add_token_def)
     (simp add: parked_two_def parked_one_eq responseError_def init_def rej400_def q_defer_def
        append_entry_def broadcast_def emit_def get_prop_def Let_def)

subsection \<open>C2: a 400 or 401 parks the request\<close>

text \<open>
  Claim C2. When \<open>responseErrorFilter\<close> accepts the rejection, the configuration has no
  truthy \<open>ignoreAuthModule\<close> and the status is 400 or 401, \<open>responseError\<close> returns the
  promise of a deferred no one knew before, appends exactly the entry made of the
  configuration and that deferred, broadcasts exactly one notification carrying the
  rejection (\<open>event:auth-missingParameter\<close> for 400, \<open>event:auth-loginRequired\<close> for 401),
  and nothing that happens short of \<open>loginConfirmed\<close> or \<open>loginCancelled\<close> (further
  failed responses, new hooks, replays in flight coming back) settles that deferred.
\<close>

theorem responseError_parks:
  assumes "wf_world w"
    and "truthy (responseErrorFilter w rej)"
    and "c = (case rconfig rej of None \<Rightarrow> [] | Some c' \<Rightarrow> c')"
    and "\<not> truthy (get_prop c ''ignoreAuthModule'')"
    and "status rej = JNum 400 \<or> status rej = JNum 401"
  shows "\<exists>w'. responseError rej w = (PromiseOf (next_deferred w), w')
          \<and> next_deferred w \<notin> set (known_handles w)
          \<and> buffer w' = buffer w @ [\<lparr>config = c, deferred = next_deferred w\<rparr>]
          \<and> effects w' = effects w @
               [Broadcast (if status rej = JNum 400 then ''event:auth-missingParameter''
                           else ''event:auth-loginRequired'') (PRejection rej)]
          \<and> (\<forall>acts. \<not> settled (next_deferred w) (perform_all acts w'))"
proof -
  let ?d = "next_deferred w"
  let ?name = "if status rej = JNum 400 then ''event:auth-missingParameter'' else ''event:auth-loginRequired''"
  let ?w' = "broadcast ?name (PRejection rej) (append_entry c ?d (snd (q_defer w)))"
  have eq: "responseError rej w = (PromiseOf ?d, ?w')"
    using assms(2-5) by (auto simp: responseError_def Let_def q_defer_def)
  have u: "unreached ?d w" by (rule fresh_unreached[OF assms(1)])
  then have "unreached ?d ?w'"
    by (auto simp: unreached_def broadcast_def append_entry_def q_defer_def settled_def effects_def emit_def)
  then have "\<forall>acts. \<not> settled ?d (perform_all acts ?w')"
    using unreached_perform_all[of ?d ?w'] by (simp add: unreached_def)
  moreover have "buffer ?w' = buffer w @ [\<lparr>config = c, deferred = ?d\<rparr>]"
    by (simp add: broadcast_def append_entry_def q_defer_def)
  moreover have "effects ?w' = effects w @ [Broadcast ?name (PRejection rej)]"
    by (simp add: broadcast_def append_entry_def q_defer_def effects_def emit_def)
  ultimately show ?thesis
    using eq wf_world_fresh[OF assms(1)] by blast
qed

theorem responseError_parks_witness:
  "wf_world parked_one
   \<and> truthy (responseErrorFilter parked_one rej400)
   \<and> \<not> truthy (get_prop [(''url'', JStr ''/api/token'')] ''ignoreAuthModule'')
   \<and> status rej400 = JNum 400
   \<and> fst (responseError rej400 parked_one) = PromiseOf 1
   \<and> buffer parked_two = buffer parked_one @ [\<lparr>config = [(''url'', JStr ''/api/token'')], deferred = 1\<rparr>]
   \<and> effects parked_two = effects parked_one @ [Broadcast ''event:auth-missingParameter'' (PRejection rej400)]
   \<and> \<not> settled 1 (perform_all [FailedResponse rej403, ReplaySettles 0 (Failure JNull)] parked_two)"
proof -
  have a: "wf_world parked_one" by (rule wf_world_parked_one)
  have b: "truthy (responseErrorFilter parked_one rej400)" by (simp add: parked_one_eq init_def)
  have c: "[(''url'', JStr ''/api/token'')] = (case rconfig rej400 of None \<Rightarrow> [] | Some c' \<Rightarrow> c')"
    by (simp add: rej400_def)
  have d: "\<not> truthy (get_prop [(''url'', JStr ''/api/token'')] ''ignoreAuthModule'')"
    by (simp add: get_prop_def)
  have e: "status rej400 = JNum 400 \<or> status rej400 = JNum 401" by (simp add: rej400_def)
  have n: "next_deferred parked_one = 1" by (simp add: parked_one_eq)
  from responseError_parks [OF a b c d e] obtain w' where
    w': "responseError rej400 parked_one = (PromiseOf (next_deferred parked_one), w')"
        "buffer w' = buffer parked_one @ [\<lparr>config = [(''url'', JStr ''/api/token'')], deferred = next_deferred parked_one\<rparr>]"
        "effects w' = effects parked_one @
               [Broadcast (if status rej400 = JNum 400 then ''event:auth-missingParameter''
                           else ''event:auth-loginRequired'') (PRejection rej400)]"
        "\<forall>acts. \<not> settled (next_deferred parked_one) (perform_all acts w')"
    by blast
  from w'(1) have p2: "w' = parked_two" by (simp add: parked_two_def)
  have s: "status rej400 = JNum 400" by (simp add: rej400_def)
  from w'(4) have "\<not> settled 1 (perform_all [FailedResponse rej403, ReplaySettles 0 (Failure JNull)] parked_two)"
    unfolding p2 n by blast
  with a b d s w'(1-3) show ?thesis
    unfolding p2 by (simp add: n)
qed

subsection \<open>C3: loginConfirmed replays the buffer\<close>

text \<open>
  Claim C3, as the code has it. With \<open>N\<close> entries buffered, an updater that is a
  function which returns the updated configuration \<open>f(config)\<close> and does nothing else,
  and a transport that accepts the updated configuration of every buffered entry,
  \<open>loginConfirmed(data, f)\<close> returns, and what it has done is: broadcast
  \<open>event:auth-loginConfirmed\<close> carrying \<open>data\<close>, then one transport request per buffered
  entry, in insertion order, each with configuration \<open>f\<close> of the entry's own and with
  the entry's own deferred. The buffer is empty afterwards, and calling \<open>loginConfirmed\<close>
  again, with whatever arguments, issues no request and still broadcasts the
  notification.
\<close>

theorem loginConfirmed_replays:
  assumes "\<forall>e \<in> set (buffer w). http (f (config e)) = None"
  shows "\<exists>w'. loginConfirmed http data (Function (transform f)) w = Some (Inr (), w')
     \<and> effects w' = effects w @ Broadcast ''event:auth-loginConfirmed'' (PData data)
                      # map (\<lambda>e. HttpCall (f (config e)) (deferred e)) (buffer w)
     \<and> buffer w' = []
     \<and> (\<forall>data' updater'. \<exists>w''.
           loginConfirmed http data' updater' w' = Some (Inr (), w'')
           \<and> effects w'' = effects w' @ [Broadcast ''event:auth-loginConfirmed'' (PData data')]
           \<and> buffer w'' = [])"
proof -
  let ?w1 = "broadcast ''event:auth-loginConfirmed'' (PData data) w"
  let ?w' = "?w1\<lparr>buffer := [],
                  trace := trace ?w1 @ map (\<lambda>e. (HttpCall (f (config e)) (deferred e), buffer ?w1)) (buffer ?w1),
                  inflight := inflight ?w1 @ map deferred (buffer ?w1)\<rparr>"
  have acc: "\<forall>e \<in> set (buffer ?w1). http (f (config e)) = None"
    using assms by (simp add: broadcast_def)
  have first: "loginConfirmed http data (Function (transform f)) w = Some (Inr (), ?w')"
    using retryAll_transform[where w = ?w1 and http = http and f = f, OF acc]
    by (simp add: loginConfirmed_def)
  have eff: "effects ?w' = effects w @ Broadcast ''event:auth-loginConfirmed'' (PData data)
                      # map (\<lambda>e. HttpCall (f (config e)) (deferred e)) (buffer w)"
    by (simp add: effects_def broadcast_def emit_def comp_def)
  have buf: "buffer ?w' = []" by simp
  have again: "\<exists>w''. loginConfirmed http data' updater' ?w' = Some (Inr (), w'')
           \<and> effects w'' = effects ?w' @ [Broadcast ''event:auth-loginConfirmed'' (PData data')]
           \<and> buffer w'' = []" for data' updater'
  proof -
    let ?u = "if truthy_updater updater' then updater' else Function identity"
    let ?v = "broadcast ''event:auth-loginConfirmed'' (PData data') ?w'"
    have "buffer ?v = []" by (simp add: broadcast_def)
    then have "retryAll http ?u ?v = Some (Inr (), ?v)" by (rule retryAll_empty)
    then have "loginConfirmed http data' updater' ?w' = Some (Inr (), ?v)"
      by (simp add: loginConfirmed_def Let_def)
    moreover have "effects ?v = effects ?w' @ [Broadcast ''event:auth-loginConfirmed'' (PData data')]"
      by (simp add: broadcast_def)
    moreover have "buffer ?v = []" by (simp add: broadcast_def)
    ultimately show ?thesis by blast
  qed
  show ?thesis
    using first eff buf again by (intro exI[of _ ?w']) simp
qed

theorem loginConfirmed_replays_witness:
  "angular_http (add_token [(''url'', JStr ''/api/items'')]) = None
   \<and> angular_http (add_token [(''url'', JStr ''/api/token'')]) = None
   \<and> (\<exists>w'. loginConfirmed angular_http (JStr ''alice'') (Function (transform add_token)) parked_two
              = Some (Inr (), w')
     \<and> effects w' =
         [Broadcast ''event:auth-loginRequired'' (PRejection rej401),
          Broadcast ''event:auth-missingParameter'' (PRejection rej400),
          Broadcast ''event:auth-loginConfirmed'' (PData (JStr ''alice'')),
          HttpCall [(''token'', JStr ''t0k''), (''url'', JStr ''/api/items'')] 0,
          HttpCall [(''token'', JStr ''t0k''), (''url'', JStr ''/api/token'')] 1]
     \<and> buffer w' = [])"
proof -
  have h: "\<forall>e \<in> set (buffer parked_two). angular_http (add_token (config e)) = None"
    by (simp add: parked_two_buffer add_token_def)
  from loginConfirmed_replays [where http = angular_http and f = add_token and w = parked_two
                                 and data = "JStr ''alice''", OF h] obtain w' where
    w': "loginConfirmed angular_http (JStr ''alice'') (Function (transform add_token)) parked_two
           = Some (Inr (), w')"
        "effects w' = effects parked_two @ Broadcast ''event:auth-loginConfirmed'' (PData (JStr ''alice''))
                      # map (\<lambda>e. HttpCall (add_token (config e)) (deferred e)) (buffer parked_two)"
        "buffer w' = []"
    by blast
  from w'(2) have "effects w' =
         [Broadcast ''event:auth-loginRequired'' (PRejection rej401),
          Broadcast ''event:auth-missingParameter'' (PRejection rej400),
          Broadcast ''event:auth-loginConfirmed'' (PData (JStr ''alice'')),
          HttpCall [(''token'', JStr ''t0k''), (''url'', JStr ''/api/items'')] 0,
          HttpCall [(''token'', JStr ''t0k''), (''url'', JStr ''/api/token'')] 1]"
    by (simp add: parked_two_buffer parked_two_effects add_token_def)
  moreover have "angular_http (add_token [(''url'', JStr ''/api/items'')]) = None"
    by (simp add: add_token_def)
  moreover have "angular_http (add_token [(''url'', JStr ''/api/token'')]) = None"
    by (simp add: add_token_def)
  ultimately show ?thesis using w'(1,3) by blast
qed

text \<open>
  Claim C3 as stated fails: it speaks of every updater. With two entries buffered and an
  updater that throws, \<open>loginConfirmed\<close> broadcasts the notification, issues no
  transport request at all and throws, with both entries still in the buffer.
\<close>

theorem loginConfirmed_throwing_updater:
  "loginConfirmed angular_http JNull (Function throwing) parked_two =
     Some (Inl (Thrown (JStr ''no token'')),
           parked_two\<lparr>trace := trace parked_two @
             [(Broadcast ''event:auth-loginConfirmed'' (PData JNull), buffer parked_two)]\<rparr>)"
  by (simp add: loginConfirmed_def retryAll_def retryAll_loop.simps broadcast_def emit_def
        parked_two_buffer throwing_def)

subsection \<open>C4: loginCancelled\<close>

text \<open>
  Claim C4 at a reason that is provided and falsy, the empty string: with two entries
  buffered, \<open>loginCancelled(null, "")\<close> broadcasts \<open>event:auth-loginCancelled\<close>, empties
  the buffer and rejects no deferred, where the claim, and the comments of
  \<open>loginCancelled\<close> and \<open>rejectAll\<close> in the source (\<open>if provided, the requests are
  rejected\<close>), have both deferreds rejected with the reason.
\<close>

theorem loginCancelled_empty_reason:
  "effects (loginCancelled JNull (JStr '''') parked_two)
     = effects parked_two @ [Broadcast ''event:auth-loginCancelled'' (PData JNull)]
   \<and> buffer (loginCancelled JNull (JStr '''') parked_two) = []
   \<and> \<not> settled 0 (loginCancelled JNull (JStr '''') parked_two)
   \<and> \<not> settled 1 (loginCancelled JNull (JStr '''') parked_two)"
  by (simp add: loginCancelled_def rejectAll_def broadcast_def settled_def parked_two_effects)

text \<open>
  For a truthy reason \<open>loginCancelled\<close> does what the claim says: every buffered deferred
  is rejected with the reason, in insertion order, before the broadcast.
\<close>

lemma loginCancelled_truthy_reason:
  "truthy reason \<Longrightarrow>
     effects (loginCancelled data reason w)
       = effects w @ map (\<lambda>e. Reject (deferred e) reason) (buffer w)
           @ [Broadcast ''event:auth-loginCancelled'' (PData data)]
     \<and> buffer (loginCancelled data reason w) = []"
  by (simp add: loginCancelled_def rejectAll_def rejectAll_loop_eq broadcast_def effects_def emit_def comp_def)

lemma loginCancelled_no_reason:
  "effects (loginCancelled data JUndefined w)
       = effects w @ [Broadcast ''event:auth-loginCancelled'' (PData data)]
   \<and> buffer (loginCancelled data JUndefined w) = []"
  by (simp add: loginCancelled_def rejectAll_def broadcast_def)

subsection \<open>C5: when retryAll empties the buffer\<close>

text \<open>
  Claim C5, as the code has it. \<open>retryAll\<close> empties the buffer only where its loop
  ends, after the transport calls of the drain. For every drain whose updater makes no
  transport call of its own, whenever the drain ends, by returning or by throwing, each
  transport call it has made was made while the buffer held the entry whose deferred
  went with the request, and if it has returned the buffer is empty. With an updater
  that only computes and a transport that accepts the updated configuration of every
  buffered entry, the drain returns, and each of its calls was made while \<open>buffer\<close> still
  held all the entries it held when the drain began.
\<close>

theorem retryAll_clears_after_calls:
  assumes "\<forall>c s. \<exists>new. trace (snd (call updater c s)) = trace s @ new
              \<and> list_all (\<lambda>x. \<not> is_request (fst x)) new"
  shows "(\<forall>r w'. retryAll http updater w = Some (r, w') \<longrightarrow>
            (\<exists>new. trace w' = trace w @ new \<and> list_all called_while_buffered new)
            \<and> (r = Inr () \<longrightarrow> buffer w' = []))
       \<and> (updater = Function (transform f) \<and> (\<forall>e \<in> set (buffer w). http (f (config e)) = None) \<longrightarrow>
            (\<exists>w'. retryAll http updater w = Some (Inr (), w')
               \<and> trace w' = trace w @ map (\<lambda>e. (HttpCall (f (config e)) (deferred e), buffer w)) (buffer w)
               \<and> buffer w' = []))"
proof (intro conjI allI impI)
  fix r w'
  assume "retryAll http updater w = Some (r, w')"
  then have run: "retryAll_loop http updater 0 w = Some (r, w')" by (simp add: retryAll_def)
  from retryAll_loop_calls_while_buffered[OF run assms]
  show "\<exists>new. trace w' = trace w @ new \<and> list_all called_while_buffered new" by simp
  from retryAll_loop_calls_while_buffered[OF run assms]
  show "buffer w' = []" if "r = Inr ()" using that by simp
next
  assume a: "updater = Function (transform f) \<and> (\<forall>e \<in> set (buffer w). http (f (config e)) = None)"
  then have acc: "\<forall>e \<in> set (buffer w). http (f (config e)) = None" by simp
  from retryAll_transform[where w = w and http = http and f = f, OF acc] a
  show "\<exists>w'. retryAll http updater w = Some (Inr (), w')
               \<and> trace w' = trace w @ map (\<lambda>e. (HttpCall (f (config e)) (deferred e), buffer w)) (buffer w)
               \<and> buffer w' = []"
    by simp
qed

theorem retryAll_clears_after_calls_witness:
  "(\<exists>w'. retryAll angular_http (Function (transform add_token)) parked_two = Some (Inr (), w')
     \<and> trace w' = trace parked_two @
         [(HttpCall [(''token'', JStr ''t0k''), (''url'', JStr ''/api/items'')] 0, buffer parked_two),
          (HttpCall [(''token'', JStr ''t0k''), (''url'', JStr ''/api/token'')] 1, buffer parked_two)]
     \<and> (\<exists>new. trace w' = trace parked_two @ new \<and> list_all called_while_buffered new)
     \<and> buffer w' = [])"
proof -
  have q: "\<forall>c s. \<exists>new. trace (snd (call (Function (transform add_token)) c s)) = trace s @ new
              \<and> list_all (\<lambda>x. \<not> is_request (fst x)) new"
    by (simp add: transform_def)
  have acc: "\<forall>e \<in> set (buffer parked_two). angular_http (add_token (config e)) = None"
    by (simp add: parked_two_buffer add_token_def)
  note t = retryAll_clears_after_calls [OF q, of angular_http parked_two add_token]
  from t acc obtain w' where
    w': "retryAll angular_http (Function (transform add_token)) parked_two = Some (Inr (), w')"
        "trace w' = trace parked_two @
           map (\<lambda>e. (HttpCall (add_token (config e)) (deferred e), buffer parked_two)) (buffer parked_two)"
        "buffer w' = []"
    by blast
  from t w'(1) have "\<exists>new. trace w' = trace parked_two @ new \<and> list_all called_while_buffered new"
    by blast
  moreover from w'(2) have "trace w' = trace parked_two @
         [(HttpCall [(''token'', JStr ''t0k''), (''url'', JStr ''/api/items'')] 0, buffer parked_two),
          (HttpCall [(''token'', JStr ''t0k''), (''url'', JStr ''/api/token'')] 1, buffer parked_two)]"
    by (simp add: parked_two_buffer add_token_def)
  ultimately show ?thesis using w'(1,3) by blast
qed

text \<open>
  Claim C5 as stated fails. One entry is buffered, with deferred \<open>0\<close>; \<open>retryAll\<close> calls
  the transport for it while the buffer still is that one entry.
\<close>

theorem retryAll_calls_before_clearing:
  "buffer parked_one = [\<lparr>config = [(''url'', JStr ''/api/items'')], deferred = 0\<rparr>]
   \<and> retryAll angular_http (Function identity) parked_one =
       Some (Inr (),
         parked_one\<lparr>buffer := [],
           trace := trace parked_one @
             [(HttpCall [(''url'', JStr ''/api/items'')] 0,
               [\<lparr>config = [(''url'', JStr ''/api/items'')], deferred = 0\<rparr>])],
           inflight := [0]\<rparr>)"
  by (simp add: retryAll_def retryAll_loop.simps identity_def retryHttpRequest_def emit_def
        parked_one_buffer)
     (simp add: parked_one_eq init_def)

subsection \<open>C6: what the drains throw\<close>

text \<open>
  Claim C6, as the code has it. \<open>retryAll\<close> throws nothing to its caller when its
  updater is a function that, on every configuration it can be called on during the
  drain (those of a set \<open>ok\<close> that holds the buffered ones and that the updater keeps
  the buffer in), returns without throwing a configuration the transport accepts, and
  removes no entry from the buffer. When that updater moreover leaves the buffer and the
  replays in flight as they are, \<open>retryAll\<close> returns, and a later failure of the replay
  of the \<open>k\<close>-th drained entry is delivered by rejecting that entry's own deferred with
  it. \<open>rejectAll\<close> throws nothing: for every reason and every buffer all it does is call
  \<open>reject\<close> on the buffered deferreds, when the reason is truthy, and empty the buffer.
\<close>

theorem drains_do_not_throw:
  assumes "\<forall>e \<in> set (buffer w). ok (config e)"
    and "\<forall>c s. ok c \<and> (\<forall>e \<in> set (buffer s). ok (config e)) \<longrightarrow>
              (\<exists>c' s'. u c s = (Inr c', s') \<and> length (buffer s) \<le> length (buffer s')
                 \<and> (\<forall>e \<in> set (buffer s'). ok (config e)) \<and> http c' = None)"
  shows "(\<forall>e w'. retryAll http (Function u) w \<noteq> Some (Inl e, w'))
       \<and> ((\<forall>c s. buffer (snd (u c s)) = buffer s \<and> inflight (snd (u c s)) = inflight s) \<longrightarrow>
            (\<exists>w'. retryAll http (Function u) w = Some (Inr (), w')
               \<and> buffer w' = []
               \<and> (\<forall>k response. k < length (buffer w) \<longrightarrow>
                     effects (transport_settles (length (inflight w) + k) (Failure response) w')
                     = effects w' @ [Reject (deferred (buffer w ! k)) response])))
       \<and> rejectAll reason w =
           w\<lparr>buffer := [],
             trace := trace w @ (if truthy reason
                                 then map (\<lambda>e. (Reject (deferred e) reason, buffer w)) (buffer w)
                                 else [])\<rparr>"
proof (intro conjI allI impI)
  fix e w'
  show "retryAll http (Function u) w \<noteq> Some (Inl e, w')"
  proof
    assume "retryAll http (Function u) w = Some (Inl e, w')"
    then have "retryAll_loop http (Function u) 0 w = Some (Inl e, w')" by (simp add: retryAll_def)
    from retryAll_loop_no_throw[OF this assms] show False by simp
  qed
next
  assume keeps: "\<forall>c s. buffer (snd (u c s)) = buffer s \<and> inflight (snd (u c s)) = inflight s"
  from retryAll_loop_well_behaved[OF assms keeps, of 0] obtain w' where
    w': "retryAll http (Function u) w = Some (Inr (), w')" "buffer w' = []"
        "inflight w' = inflight w @ map deferred (buffer w)"
    by (auto simp: retryAll_def)
  have "effects (transport_settles (length (inflight w) + k) (Failure response) w')
        = effects w' @ [Reject (deferred (buffer w ! k)) response]"
    if "k < length (buffer w)" for k response
    using that transport_failure_effects[of "length (inflight w) + k" w' response]
    by (simp add: w'(3) nth_append)
  with w'(1,2)
  show "\<exists>w'. retryAll http (Function u) w = Some (Inr (), w')
               \<and> buffer w' = []
               \<and> (\<forall>k response. k < length (buffer w) \<longrightarrow>
                     effects (transport_settles (length (inflight w) + k) (Failure response) w')
                     = effects w' @ [Reject (deferred (buffer w ! k)) response])"
    by blast
next
  show "rejectAll reason w =
           w\<lparr>buffer := [],
             trace := trace w @ (if truthy reason
                                 then map (\<lambda>e. (Reject (deferred e) reason, buffer w)) (buffer w)
                                 else [])\<rparr>"
    by (simp add: rejectAll_def rejectAll_loop_eq)
qed

theorem drains_do_not_throw_witness:
  "(\<forall>e w'. retryAll angular_http (Function (transform add_token)) parked_two \<noteq> Some (Inl e, w'))
   \<and> (\<exists>w'. retryAll angular_http (Function (transform add_token)) parked_two = Some (Inr (), w')
         \<and> buffer w' = []
         \<and> effects (transport_settles 1 (Failure (JObj 7)) w') = effects w' @ [Reject 1 (JObj 7)])
   \<and> rejectAll (JStr ''cancelled'') parked_two =
        parked_two\<lparr>buffer := [],
          trace := trace parked_two @ [(Reject 0 (JStr ''cancelled''), buffer parked_two),
                                       (Reject 1 (JStr ''cancelled''), buffer parked_two)]\<rparr>"
proof -
  let ?ok = "\<lambda>c. angular_http (add_token c) = None"
  have a: "\<forall>e \<in> set (buffer parked_two). ?ok (config e)"
    by (simp add: parked_two_buffer add_token_def)
  have b: "\<forall>c s. ?ok c \<and> (\<forall>e \<in> set (buffer s). ?ok (config e)) \<longrightarrow>
              (\<exists>c' s'. transform add_token c s = (Inr c', s') \<and> length (buffer s) \<le> length (buffer s')
                 \<and> (\<forall>e \<in> set (buffer s'). ?ok (config e)) \<and> angular_http c' = None)"
    by (simp add: transform_def)
  have k: "\<forall>c s. buffer (snd (transform add_token c s)) = buffer s
                  \<and> inflight (snd (transform add_token c s)) = inflight s"
    by (simp add: transform_def)
  note t = drains_do_not_throw [where ok = ?ok and u = "transform add_token" and http = angular_http
               and w = parked_two and reason = "JStr ''cancelled''", OF a b]
  from t have nt: "\<forall>e w'. retryAll angular_http (Function (transform add_token)) parked_two \<noteq> Some (Inl e, w')"
    by blast
  from t k obtain w' where
    w': "retryAll angular_http (Function (transform add_token)) parked_two = Some (Inr (), w')"
        "buffer w' = []"
        "\<forall>k response. k < length (buffer parked_two) \<longrightarrow>
             effects (transport_settles (length (inflight parked_two) + k) (Failure response) w')
               = effects w' @ [Reject (deferred (buffer parked_two ! k)) response]"
    by blast
  from w'(3) have f: "effects (transport_settles 1 (Failure (JObj 7)) w') = effects w' @ [Reject 1 (JObj 7)]"
    by (simp add: parked_two_inflight parked_two_buffer)
  from t have "rejectAll (JStr ''cancelled'') parked_two =
        parked_two\<lparr>buffer := [],
          trace := trace parked_two @ (if truthy (JStr ''cancelled'')
             then map (\<lambda>e. (Reject (deferred e) (JStr ''cancelled''), buffer parked_two)) (buffer parked_two)
             else [])\<rparr>"
    by blast
  then have r: "rejectAll (JStr ''cancelled'') parked_two =
        parked_two\<lparr>buffer := [],
          trace := trace parked_two @ [(Reject 0 (JStr ''cancelled''), buffer parked_two),
                                       (Reject 1 (JStr ''cancelled''), buffer parked_two)]\<rparr>"
    by (simp add: parked_two_buffer)
  from nt w'(1,2) f r show ?thesis by blast
qed

text \<open>
  Claim C6 as stated fails: what the updater throws, \<open>retryAll\<close> throws to its caller,
  at the first entry, with the buffer as it was.
\<close>

theorem retryAll_throwing_updater:
  "retryAll angular_http (Function throwing) parked_one
     = Some (Inl (Thrown (JStr ''no token'')), parked_one)"
  by (simp add: retryAll_def retryAll_loop.simps parked_one_buffer throwing_def)

subsection \<open>C7: ignoreAuthModule\<close>

text \<open>
  Claim C7. When the configuration of the failed request has \<open>ignoreAuthModule\<close> set to
  \<open>true\<close>, whatever the status and whatever \<open>responseErrorFilter\<close> answers,
  \<open>responseError\<close> returns \<open>$q.reject(rejection)\<close> with the rejection as it came and
  changes nothing: no broadcast, no entry appended.
\<close>

theorem responseError_opted_out:
  assumes "rconfig rej = Some c" and "get_prop c ''ignoreAuthModule'' = JBool True"
  shows "responseError rej w = (RejectedWith rej, w)"
  using assms by (simp add: responseError_def Let_def)

theorem responseError_opted_out_witness:
  "rconfig rej401_opted_out = Some [(''url'', JStr ''/login''), (''ignoreAuthModule'', JBool True)]
   \<and> get_prop [(''url'', JStr ''/login''), (''ignoreAuthModule'', JBool True)] ''ignoreAuthModule'' = JBool True
   \<and> responseError rej401_opted_out parked_one = (RejectedWith rej401_opted_out, parked_one)"
proof -
  have a: "rconfig rej401_opted_out = Some [(''url'', JStr ''/login''), (''ignoreAuthModule'', JBool True)]"
    by (simp add: rej401_opted_out_def)
  have b: "get_prop [(''url'', JStr ''/login''), (''ignoreAuthModule'', JBool True)] ''ignoreAuthModule'' = JBool True"
    by (simp add: get_prop_def)
  show ?thesis using a b responseError_opted_out [OF a b, of parked_one] by simp
qed

subsection \<open>C8: 403 and the other statuses\<close>

text \<open>
  Claim C8. For a rejection that \<open>responseErrorFilter\<close> accepts and whose configuration
  has no truthy \<open>ignoreAuthModule\<close>: at status 403 \<open>responseError\<close> makes exactly one
  call, the broadcast of \<open>event:auth-forbidden\<close> carrying the rejection, appends nothing
  and returns \<open>$q.reject(rejection)\<close>; at a status other than 400, 401 and 403 it
  returns \<open>$q.reject(rejection)\<close> and changes nothing.
\<close>

theorem responseError_not_parked:
  assumes "truthy (responseErrorFilter w rej)"
    and "\<not> truthy (get_prop (case rconfig rej of None \<Rightarrow> [] | Some c \<Rightarrow> c) ''ignoreAuthModule'')"
  shows "(status rej = JNum 403 \<longrightarrow>
            responseError rej w =
              (RejectedWith rej,
               w\<lparr>trace := trace w @ [(Broadcast ''event:auth-forbidden'' (PRejection rej), buffer w)]\<rparr>))
       \<and> (status rej \<noteq> JNum 400 \<and> status rej \<noteq> JNum 401 \<and> status rej \<noteq> JNum 403 \<longrightarrow>
            responseError rej w = (RejectedWith rej, w))"
  using assms by (simp add: responseError_def broadcast_def emit_def Let_def)

theorem responseError_not_parked_witness:
  "truthy (responseErrorFilter parked_one rej403)
   \<and> \<not> truthy (get_prop (case rconfig rej403 of None \<Rightarrow> [] | Some c \<Rightarrow> c) ''ignoreAuthModule'')
   \<and> status rej403 = JNum 403
   \<and> responseError rej403 parked_one =
        (RejectedWith rej403,
         parked_one\<lparr>trace := trace parked_one
            @ [(Broadcast ''event:auth-forbidden'' (PRejection rej403), buffer parked_one)]\<rparr>)
   \<and> truthy (responseErrorFilter parked_one rej500)
   \<and> \<not> truthy (get_prop (case rconfig rej500 of None \<Rightarrow> [] | Some c \<Rightarrow> c) ''ignoreAuthModule'')
   \<and> status rej500 \<noteq> JNum 400 \<and> status rej500 \<noteq> JNum 401 \<and> status rej500 \<noteq> JNum 403
   \<and> responseError rej500 parked_one = (RejectedWith rej500, parked_one)"
proof -
  have a3: "truthy (responseErrorFilter parked_one rej403)" by (simp add: parked_one_eq init_def)
  have b3: "\<not> truthy (get_prop (case rconfig rej403 of None \<Rightarrow> [] | Some c \<Rightarrow> c) ''ignoreAuthModule'')"
    by (simp add: rej403_def get_prop_def)
  have a5: "truthy (responseErrorFilter parked_one rej500)" by (simp add: parked_one_eq init_def)
  have b5: "\<not> truthy (get_prop (case rconfig rej500 of None \<Rightarrow> [] | Some c \<Rightarrow> c) ''ignoreAuthModule'')"
    by (simp add: rej500_def get_prop_def)
  have s3: "status rej403 = JNum 403" by (simp add: rej403_def)
  have s5: "status rej500 \<noteq> JNum 400 \<and> status rej500 \<noteq> JNum 401 \<and> status rej500 \<noteq> JNum 403"
    by (simp add: rej500_def)
  show ?thesis
    using responseError_not_parked [OF a3 b3] responseError_not_parked [OF a5 b5] a3 b3 a5 b5 s3 s5
    by simp
qed

subsection \<open>C9: the default updater\<close>

text \<open>
  Claim C9, as the code has it. The default is applied by \<open>loginConfirmed\<close>:
  \<open>loginConfirmed\<close> with no updater supplied behaves exactly as \<open>loginConfirmed\<close> with the
  identity updater, whatever the buffer and the transport; when the transport accepts
  the configuration of every buffered entry, each of them is reissued unchanged.
\<close>

theorem loginConfirmed_default_updater:
  "loginConfirmed http data (NotFunction JUndefined) w = loginConfirmed http data (Function identity) w
   \<and> ((\<forall>e \<in> set (buffer w). http (config e) = None) \<longrightarrow>
        (\<exists>w'. loginConfirmed http data (NotFunction JUndefined) w = Some (Inr (), w')
           \<and> effects w' = effects w @ Broadcast ''event:auth-loginConfirmed'' (PData data)
                         # map (\<lambda>e. HttpCall (config e) (deferred e)) (buffer w)
           \<and> buffer w' = []))"
proof (intro conjI impI)
  show "loginConfirmed http data (NotFunction JUndefined) w = loginConfirmed http data (Function identity) w"
    by (simp add: loginConfirmed_def)
next
  assume acc: "\<forall>e \<in> set (buffer w). http (config e) = None"
  let ?w1 = "broadcast ''event:auth-loginConfirmed'' (PData data) w"
  have acc1: "\<forall>e \<in> set (buffer ?w1). http ((\<lambda>c. c) (config e)) = None"
    using acc by (simp add: broadcast_def)
  from retryAll_transform[where w = ?w1 and http = http and f = "\<lambda>c. c", OF acc1]
  show "\<exists>w'. loginConfirmed http data (NotFunction JUndefined) w = Some (Inr (), w')
           \<and> effects w' = effects w @ Broadcast ''event:auth-loginConfirmed'' (PData data)
                         # map (\<lambda>e. HttpCall (config e) (deferred e)) (buffer w)
           \<and> buffer w' = []"
    by (simp add: loginConfirmed_def identity_transform effects_def broadcast_def emit_def comp_def)
qed

theorem loginConfirmed_default_updater_witness:
  "loginConfirmed angular_http JNull (NotFunction JUndefined) parked_two
     = loginConfirmed angular_http JNull (Function identity) parked_two
   \<and> angular_http [(''url'', JStr ''/api/items'')] = None
   \<and> angular_http [(''url'', JStr ''/api/token'')] = None
   \<and> (\<exists>w'. loginConfirmed angular_http JNull (NotFunction JUndefined) parked_two = Some (Inr (), w')
        \<and> effects w' =
            [Broadcast ''event:auth-loginRequired'' (PRejection rej401),
             Broadcast ''event:auth-missingParameter'' (PRejection rej400),
             Broadcast ''event:auth-loginConfirmed'' (PData JNull),
             HttpCall [(''url'', JStr ''/api/items'')] 0,
             HttpCall [(''url'', JStr ''/api/token'')] 1]
        \<and> buffer w' = [])"
proof -
  have acc: "\<forall>e \<in> set (buffer parked_two). angular_http (config e) = None"
    by (simp add: parked_two_buffer)
  note t = loginConfirmed_default_updater [of angular_http JNull parked_two]
  from t have eq: "loginConfirmed angular_http JNull (NotFunction JUndefined) parked_two
                   = loginConfirmed angular_http JNull (Function identity) parked_two"
    by blast
  from t acc obtain w' where
    w': "loginConfirmed angular_http JNull (NotFunction JUndefined) parked_two = Some (Inr (), w')"
      "effects w' = effects parked_two @ Broadcast ''event:auth-loginConfirmed'' (PData JNull)
                      # map (\<lambda>e. HttpCall (config e) (deferred e)) (buffer parked_two)"
      "buffer w' = []"
    by blast
  from w'(2) have "effects w' =
            [Broadcast ''event:auth-loginRequired'' (PRejection rej401),
             Broadcast ''event:auth-missingParameter'' (PRejection rej400),
             Broadcast ''event:auth-loginConfirmed'' (PData JNull),
             HttpCall [(''url'', JStr ''/api/items'')] 0,
             HttpCall [(''url'', JStr ''/api/token'')] 1]"
    by (simp add: parked_two_buffer parked_two_effects)
  moreover have "angular_http [(''url'', JStr ''/api/items'')] = None" by simp
  moreover have "angular_http [(''url'', JStr ''/api/token'')] = None" by simp
  ultimately show ?thesis using eq w'(1,3) by blast
qed

text \<open>
  Claim C9 as stated fails: the buffer's own \<open>retryAll\<close> has no default. Called with no
  updater on a buffer of one entry it throws a TypeError at \<open>updater(...)\<close>, replays
  nothing and leaves the buffer as it was; with the identity updater it does not.
\<close>

theorem retryAll_without_updater:
  "retryAll angular_http (NotFunction JUndefined) parked_one = Some (Inl TypeError, parked_one)
   \<and> retryAll angular_http (NotFunction JUndefined) parked_one
       \<noteq> retryAll angular_http (Function identity) parked_one"
  by (simp add: retryAll_def retryAll_loop.simps parked_one_buffer identity_def retryHttpRequest_def)

subsection \<open>C10: rejectAll tests the truthiness of its argument\<close>

text \<open>
  Claim C10. \<open>undefined\<close>, \<open>null\<close>, \<open>false\<close>, \<open>0\<close> and the empty string are falsy; for
  every falsy reason \<open>rejectAll\<close> empties the buffer and does nothing else, so that no
  deferred is settled; for a truthy reason, and only then, it rejects every buffered
  deferred with the reason, in insertion order, and empties the buffer.
\<close>

theorem rejectAll_truthiness:
  "(reason \<in> {JUndefined, JNull, JBool False, JNum 0, JStr ''''} \<longrightarrow> \<not> truthy reason)
   \<and> (\<not> truthy reason \<longrightarrow> rejectAll reason w = w\<lparr>buffer := []\<rparr>)
   \<and> (truthy reason \<longrightarrow>
        rejectAll reason w =
          w\<lparr>buffer := [],
            trace := trace w @ map (\<lambda>e. (Reject (deferred e) reason, buffer w)) (buffer w)\<rparr>)"
  by (auto simp: rejectAll_def rejectAll_loop_eq)

theorem rejectAll_truthiness_witness:
  "JStr '''' \<in> {JUndefined, JNull, JBool False, JNum 0, JStr ''''}
   \<and> \<not> truthy (JStr '''')
   \<and> rejectAll (JStr '''') parked_two = parked_two\<lparr>buffer := []\<rparr>
   \<and> truthy (JStr ''cancelled'')
   \<and> rejectAll (JStr ''cancelled'') parked_two =
        parked_two\<lparr>buffer := [],
          trace := trace parked_two @ [(Reject 0 (JStr ''cancelled''), buffer parked_two),
                                       (Reject 1 (JStr ''cancelled''), buffer parked_two)]\<rparr>"
  using rejectAll_truthiness [of "JStr ''''" parked_two]
        rejectAll_truthiness [of "JStr ''cancelled''" parked_two]
  by (simp add: parked_two_buffer)

end
